theory Spec2Isabelle
  imports Main "HOL-Library.Sublist"
begin

section \<open>Data model of the workflow orchestrator\<close>

text \<open>
  Strings are lists of 8-bit characters, read as the code points below 256 of a Python
  \<^verbatim>\<open>str\<close>. Python exceptions are values: \<open>exception\<close> holds the classes below
  \<^verbatim>\<open>Exception\<close> that \<^verbatim>\<open>initiate_workflow\<close> tells apart (the class name and
  \<^verbatim>\<open>str(e)\<close> for all others), \<open>raised\<close> adds \<^verbatim>\<open>KeyboardInterrupt\<close>, which is a
  \<^verbatim>\<open>BaseException\<close> and is not caught by \<^verbatim>\<open>except Exception\<close>.
\<close>

datatype exception =
    TimeoutError string
  | ValueError string
  | ConnectionError string
  | OtherError string string

datatype raised = KeyboardInterrupt | Exception exception

text \<open>\<^verbatim>\<open>str(e)\<close> of an exception.\<close>

fun str_of :: "exception \<Rightarrow> string" where
  "str_of (TimeoutError m) = m"
| "str_of (ValueError m) = m"
| "str_of (ConnectionError m) = m"
| "str_of (OtherError t m) = m"

text \<open>An agent is known to the orchestrator by its \<^verbatim>\<open>name\<close> attribute only.\<close>

datatype agent = Agent (name: string)

text \<open>
  A chat message is a dictionary from keys (\<^verbatim>\<open>"name"\<close>, \<^verbatim>\<open>"content"\<close>, ...) to
  strings.
\<close>

type_synonym message = "string \<rightharpoonup> string"

text \<open>
  The orchestrator object. The progress callback receives the stage, the action label and
  the optional iteration number; it acts on the state \<open>'u\<close> of the user interface and
  may raise.
\<close>

record 'u orchestrator =
  agents :: "string \<rightharpoonup> agent"
  max_review_iterations :: int
  review_iteration_count :: int
  progress_callback :: "(string \<Rightarrow> string \<Rightarrow> int option \<Rightarrow> 'u \<Rightarrow> raised option \<times> 'u) option"

text \<open>
  \<^verbatim>\<open>repr(s)\<close> of a string: in single quotes, or in double quotes when the string has a
  single quote and no double quote; a backslash, the quote, a line feed, a carriage return
  and a tab are escaped, every other character that is not printable is written
  \<^verbatim>\<open>\xNN\<close>. It is the text of a \<^verbatim>\<open>KeyError\<close> and of the file name in an
  \<^verbatim>\<open>OSError\<close>.
\<close>

definition printable :: "char \<Rightarrow> bool" where
  "printable c \<longleftrightarrow>
     (let n = (of_char c :: nat) in (0x20 \<le> n \<and> n < 0x7F) \<or> (0xA1 \<le> n \<and> n \<noteq> 0xAD))"

definition hex_digit :: "nat \<Rightarrow> char" where
  "hex_digit n = ''0123456789abcdef'' ! (n mod 16)"

definition escape_char :: "char \<Rightarrow> char \<Rightarrow> string" where
  "escape_char q c =
     (if c = CHR 0x5C then [CHR 0x5C, CHR 0x5C]
      else if c = q then [CHR 0x5C, q]
      else if c = CHR 0x0A then [CHR 0x5C, CHR ''n'']
      else if c = CHR 0x0D then [CHR 0x5C, CHR ''r'']
      else if c = CHR 0x09 then [CHR 0x5C, CHR ''t'']
      else if printable c then [c]
      else [CHR 0x5C, CHR ''x'', hex_digit (of_char c div 16), hex_digit (of_char c)])"

definition py_repr :: "string \<Rightarrow> string" where
  "py_repr s =
     (let q = (if CHR 0x27 \<in> set s \<and> CHR 0x22 \<notin> set s then CHR 0x22 else CHR 0x27)
      in q # concat (map (escape_char q) s) @ [q])"

text \<open>
  \<^verbatim>\<open>d[k]\<close> on a dictionary: a missing key raises \<^verbatim>\<open>KeyError\<close>, whose text is the
  \<^verbatim>\<open>repr\<close> of the key.
\<close>

definition getitem :: "(string \<rightharpoonup> 'v) \<Rightarrow> string \<Rightarrow> raised + 'v" where
  "getitem d k =
     (case d k of
        None \<Rightarrow> Inl (Exception (OtherError ''KeyError'' (py_repr k)))
      | Some v \<Rightarrow> Inr v)"

text \<open>\<^verbatim>\<open>needle in haystack\<close> on strings.\<close>

fun str_in :: "string \<Rightarrow> string \<Rightarrow> bool" where
  "str_in needle [] = (needle = [])"
| "str_in needle (c # cs) = (prefix needle (c # cs) \<or> str_in needle cs)"

section \<open>The speaker selector\<close>

text \<open>
  \<^verbatim>\<open>if self.progress_callback: self.progress_callback(stage, action[, iteration])\<close>
\<close>

definition notify ::
  "'u orchestrator \<Rightarrow> string \<Rightarrow> string \<Rightarrow> int option \<Rightarrow> 'u \<Rightarrow> raised option \<times> 'u" where
  "notify self stage action iteration u =
     (case progress_callback self of
        None \<Rightarrow> (None, u)
      | Some callback \<Rightarrow> callback stage action iteration u)"

text \<open>
  The tail of a branch that notifies and then returns \<open>next_agent\<close>, which has been
  looked up already: an exception of the callback leaves the selector.
\<close>

definition notify_return ::
  "'u orchestrator \<Rightarrow> agent \<Rightarrow> string \<Rightarrow> string \<Rightarrow> int option \<Rightarrow> 'u
     \<Rightarrow> (raised + agent option) \<times> 'u orchestrator \<times> 'u" where
  "notify_return self next_agent stage action iteration u =
     (case notify self stage action iteration u of
        (Some e, u') \<Rightarrow> (Inl e, self, u')
      | (None, u') \<Rightarrow> (Inr (Some next_agent), self, u'))"

text \<open>
  \<^verbatim>\<open>custom_speaker_selector(self, last_speaker, groupchat)\<close>, with
  \<open>messages\<close> for \<^verbatim>\<open>groupchat.messages\<close>. The result is the exception raised or the
  next agent (\<open>None\<close> ends the conversation), with the orchestrator and the user
  interface as the call leaves them.
\<close>

definition custom_speaker_selector ::
  "'u orchestrator \<Rightarrow> agent \<Rightarrow> message list \<Rightarrow> 'u
     \<Rightarrow> (raised + agent option) \<times> 'u orchestrator \<times> 'u" where
  "custom_speaker_selector self last_speaker messages u =
     (case (if messages = [] then Inr [] else getitem (last messages) ''content'') of
        Inl e \<Rightarrow> (Inl e, self, u)
      | Inr last_message \<Rightarrow>
     (let last_speaker_name = name last_speaker;
          ux_designer_has_spoken =
            list_ex (\<lambda>msg. msg ''name'' = Some ''UX_Designer'') messages
      in
      if last_speaker_name = ''Admin_Proxy'' \<and> \<not> ux_designer_has_spoken then
        (case getitem (agents self) ''product_manager'' of
           Inl e \<Rightarrow> (Inl e, self, u)
         | Inr next_agent \<Rightarrow>
             notify_return self next_agent ''product_manager'' ''analyzing'' None u)
      else if last_speaker_name = ''Admin_Proxy'' \<and> ux_designer_has_spoken then
        (Inr None, self, u)
      else if last_speaker_name = ''Product_Manager'' then
        (case getitem (agents self) ''python_engineer'' of
           Inl e \<Rightarrow> (Inl e, self, u)
         | Inr next_agent \<Rightarrow>
             notify_return (self\<lparr>review_iteration_count := 0\<rparr>) next_agent
               ''python_engineer'' ''coding'' None u)
      else if last_speaker_name = ''Python_Engineer'' then
        (case getitem (agents self) ''code_reviewer'' of
           Inl e \<Rightarrow> (Inl e, self, u)
         | Inr next_agent \<Rightarrow>
             notify_return self next_agent ''code_reviewer'' ''reviewing'' None u)
      else if last_speaker_name = ''Code_Reviewer'' then
        (if str_in ''FIX_REQUIRED'' last_message then
           (let self1 = self\<lparr>review_iteration_count := review_iteration_count self + 1\<rparr>
            in
            if review_iteration_count self1 \<ge> max_review_iterations self1 then
              (case getitem (agents self1) ''tech_writer'' of
                 Inl e \<Rightarrow> (Inl e, self1, u)
               | Inr next_agent \<Rightarrow> (Inr (Some next_agent), self1, u))
            else
              (case getitem (agents self1) ''python_engineer'' of
                 Inl e \<Rightarrow> (Inl e, self1, u)
               | Inr next_agent \<Rightarrow>
                   notify_return self1 next_agent ''python_engineer'' ''fixing''
                     (Some (review_iteration_count self1)) u))
         else if str_in ''APPROVED'' last_message then
           (case getitem (agents self) ''tech_writer'' of
              Inl e \<Rightarrow> (Inl e, self, u)
            | Inr next_agent \<Rightarrow>
                notify_return self next_agent ''tech_writer'' ''documenting'' None u)
         else
           (case getitem (agents self) ''tech_writer'' of
              Inl e \<Rightarrow> (Inl e, self, u)
            | Inr next_agent \<Rightarrow> (Inr (Some next_agent), self, u)))
      else if last_speaker_name = ''Tech_Writer'' then
        (case getitem (agents self) ''qa_engineer'' of
           Inl e \<Rightarrow> (Inl e, self, u)
         | Inr next_agent \<Rightarrow>
             notify_return self next_agent ''qa_engineer'' ''testing'' None u)
      else if last_speaker_name = ''QA_Engineer'' then
        (case getitem (agents self) ''devops_engineer'' of
           Inl e \<Rightarrow> (Inl e, self, u)
         | Inr next_agent \<Rightarrow>
             notify_return self next_agent ''devops_engineer'' ''deploying'' None u)
      else if last_speaker_name = ''DevOps_Engineer'' then
        (case getitem (agents self) ''ux_designer'' of
           Inl e \<Rightarrow> (Inl e, self, u)
         | Inr next_agent \<Rightarrow>
             notify_return self next_agent ''ux_designer'' ''designing'' None u)
      else if last_speaker_name = ''UX_Designer'' then
        (case notify self ''complete'' ''done'' None u of
           (Some e, u') \<Rightarrow> (Inl e, self, u')
         | (None, u') \<Rightarrow> (Inr None, self, u'))
      else
        (Inr None, self, u)))"

section \<open>The conversation\<close>

text \<open>
  A message as the group chat stores it: the reply of \<open>speaker\<close> with its name attached.
\<close>

definition chat_message :: "agent \<Rightarrow> string \<Rightarrow> message" where
  "chat_message speaker content =
     [''content'' \<mapsto> content, ''role'' \<mapsto> ''user'', ''name'' \<mapsto> name speaker]"

text \<open>\<^verbatim>\<open>max_round=50\<close> of \<^verbatim>\<open>create_group_chat\<close>.\<close>

definition max_round :: nat where
  "max_round = 50"

text \<open>
  Modelled from the spec: the group-chat manager that \<^verbatim>\<open>initiate_chat\<close> starts belongs
  to the external chat library and is not part of the sources. Following sections 4.1, 4.5
  and 6 of the specification, it drives the selector until it returns Terminal, invokes
  the selected stage on the transcript, appends the reply, and stops after \<open>rounds\<close>
  selections (the hard round limit). An exception of the selector or of a stage ends the
  conversation and is passed on.
\<close>

fun run_chat ::
  "nat \<Rightarrow> (agent \<Rightarrow> message list \<Rightarrow> raised + string) \<Rightarrow> 'u orchestrator \<Rightarrow> agent
     \<Rightarrow> message list \<Rightarrow> 'u \<Rightarrow> raised option \<times> 'u orchestrator \<times> message list \<times> 'u" where
  "run_chat 0 reply self speaker messages u = (None, self, messages, u)"
| "run_chat (Suc rounds) reply self speaker messages u =
     (case custom_speaker_selector self speaker messages u of
        (Inl e, self', u') \<Rightarrow> (Some e, self', messages, u')
      | (Inr None, self', u') \<Rightarrow> (None, self', messages, u')
      | (Inr (Some next_speaker), self', u') \<Rightarrow>
          (case reply next_speaker messages of
             Inl e \<Rightarrow> (Some e, self', messages, u')
           | Inr content \<Rightarrow>
               run_chat rounds reply self' next_speaker
                 (messages @ [chat_message next_speaker content]) u'))"

text \<open>
  \<^verbatim>\<open>create_group_chat\<close>: the eight agents are looked up in this order; a missing key
  raises \<^verbatim>\<open>KeyError\<close>.
\<close>

fun getitems :: "(string \<rightharpoonup> 'v) \<Rightarrow> string list \<Rightarrow> raised + 'v list" where
  "getitems d [] = Inr []"
| "getitems d (k # ks) =
     (case getitem d k of
        Inl e \<Rightarrow> Inl e
      | Inr v \<Rightarrow> (case getitems d ks of Inl e \<Rightarrow> Inl e | Inr vs \<Rightarrow> Inr (v # vs)))"

definition create_group_chat :: "'u orchestrator \<Rightarrow> raised + agent list" where
  "create_group_chat self =
     getitems (agents self)
       [''admin_proxy'', ''product_manager'', ''python_engineer'', ''code_reviewer'',
        ''tech_writer'', ''qa_engineer'', ''devops_engineer'', ''ux_designer'']"

section \<open>Whitespace\<close>

text \<open>
  The characters below code point 256 for which \<^verbatim>\<open>str.isspace\<close> holds; the same
  characters are matched by \<^verbatim>\<open>\s\<close> in a \<^verbatim>\<open>str\<close> pattern.
\<close>

definition isspace :: "char \<Rightarrow> bool" where
  "isspace c \<longleftrightarrow>
     c \<in> {CHR 0x09, CHR 0x0A, CHR 0x0B, CHR 0x0C, CHR 0x0D, CHR 0x1C, CHR 0x1D, CHR 0x1E,
          CHR 0x1F, CHR 0x20, CHR 0x85, CHR 0xA0}"

text \<open>\<^verbatim>\<open>s.strip()\<close>\<close>

definition strip :: "string \<Rightarrow> string" where
  "strip s = rev (dropWhile isspace (rev (dropWhile isspace s)))"

section \<open>The file pattern\<close>

text \<open>
  \<^verbatim>\<open>re.findall(r'===BEGIN_FILE:([^\s]+)===\s*\n(.*?)\n===END_FILE===', content, re.DOTALL)\<close>
  as a backtracking matcher that tries the alternatives in the order of the regular
  expression engine: a greedy quantifier takes the longest repetition first, the lazy one
  the shortest.
\<close>

definition begin_marker :: string where
  "begin_marker = ''===BEGIN_FILE:''"

definition end_marker :: string where
  "end_marker = CHR 0x0A # ''===END_FILE===''"

text \<open>
  \<^verbatim>\<open>(.*?)\n===END_FILE===\<close>: the body up to the first end marker and the text that
  follows the marker.
\<close>

fun find_end :: "string \<Rightarrow> (string \<times> string) option" where
  "find_end [] = None"
| "find_end (c # cs) =
     (if prefix end_marker (c # cs) then Some ([], drop (length end_marker) (c # cs))
      else map_option (\<lambda>(body, rest). (c # body, rest)) (find_end cs))"

text \<open>
  \<^verbatim>\<open>\s*\n\<close> and then the body: the greedy \<^verbatim>\<open>\s*\<close> takes \<open>c\<close> first, and gives it
  back to \<^verbatim>\<open>\n\<close> when nothing matches after that.
\<close>

fun match_space :: "string \<Rightarrow> (string \<times> string) option" where
  "match_space [] = None"
| "match_space (c # cs) =
     (if isspace c then
        (case match_space cs of
           Some r \<Rightarrow> Some r
         | None \<Rightarrow> if c = CHR 0x0A then find_end cs else None)
      else None)"

text \<open>
  \<^verbatim>\<open>([^\s]+)===\<close> and then the rest: \<open>acc\<close> is the part of the name taken so far; the
  greedy \<^verbatim>\<open>+\<close> goes on before it tries to stop after \<open>c\<close>.
\<close>

fun match_name :: "string \<Rightarrow> string \<Rightarrow> (string \<times> string \<times> string) option" where
  "match_name acc [] = None"
| "match_name acc (c # cs) =
     (if isspace c then None
      else
        (case match_name (acc @ [c]) cs of
           Some r \<Rightarrow> Some r
         | None \<Rightarrow>
             if prefix ''==='' cs then
               (case match_space (drop 3 cs) of
                  Some (body, rest) \<Rightarrow> Some (acc @ [c], body, rest)
                | None \<Rightarrow> None)
             else None))"

text \<open>A match of the whole pattern at the start of \<open>s\<close>: both groups and the text after it.\<close>

definition match_at :: "string \<Rightarrow> (string \<times> string \<times> string) option" where
  "match_at s =
     (if prefix begin_marker s then match_name [] (drop (length begin_marker) s) else None)"

lemma find_end_shorter: "find_end s = Some (body, rest) \<Longrightarrow> length rest < length s"
  by (induction s arbitrary: body) (auto simp: end_marker_def split: if_splits)

lemma match_space_shorter: "match_space s = Some (body, rest) \<Longrightarrow> length rest < length s"
  by (induction s) (auto split: if_splits option.splits dest: find_end_shorter)

lemma match_name_shorter:
  "match_name acc s = Some (nm, body, rest) \<Longrightarrow> length rest < length s"
proof (induction s arbitrary: acc)
  case Nil
  then show ?case by simp
next
  case (Cons c cs)
  show ?case
  proof (cases "match_name (acc @ [c]) cs")
    case (Some r)
    with Cons.prems have "match_name (acc @ [c]) cs = Some (nm, body, rest)"
      by (auto split: if_splits)
    then have "length rest < length cs"
      by (rule Cons.IH)
    then show ?thesis by simp
  next
    case None
    with Cons.prems obtain body' rest' where
      "match_space (drop 3 cs) = Some (body', rest')" "rest = rest'"
      by (auto split: if_splits option.splits)
    then have "length rest < length (drop 3 cs)"
      using match_space_shorter by blast
    then show ?thesis by simp
  qed
qed

lemma match_at_shorter: "match_at s = Some (nm, body, rest) \<Longrightarrow> length rest < length s"
  by (auto simp: match_at_def split: if_splits dest: match_name_shorter)

text \<open>
  The scan of \<^verbatim>\<open>findall\<close>: after a match it goes on behind the match, otherwise one
  character further.
\<close>

function findall :: "string \<Rightarrow> (string \<times> string) list" where
  "findall [] = []"
| "findall (c # cs) =
     (case match_at (c # cs) of
        Some (nm, body, rest) \<Rightarrow> (nm, body) # findall rest
      | None \<Rightarrow> findall cs)"
  by pat_completeness auto
termination
  by (relation "measure length") (auto dest: match_at_shorter)

section \<open>The workspace\<close>

text \<open>
  The file system: the directories that exist and the text of every file, each under its
  absolute path without \<^verbatim>\<open>.\<close>, \<^verbatim>\<open>..\<close>, doubled or trailing slashes. There are no
  symbolic links and no permissions, and the root directory is \<^verbatim>\<open>/\<close>.
\<close>

record filesystem =
  dirs :: "string set"
  files :: "string \<rightharpoonup> string"

text \<open>The operating system's errors, as Python raises them.\<close>

datatype errno = ENOENT | EEXIST | ENOTDIR | EISDIR | ENAMETOOLONG

fun os_error :: "errno \<Rightarrow> string \<Rightarrow> exception" where
  "os_error ENOENT p =
     OtherError ''FileNotFoundError'' (''[Errno 2] No such file or directory: '' @ py_repr p)"
| "os_error EEXIST p =
     OtherError ''FileExistsError'' (''[Errno 17] File exists: '' @ py_repr p)"
| "os_error ENOTDIR p =
     OtherError ''NotADirectoryError'' (''[Errno 20] Not a directory: '' @ py_repr p)"
| "os_error EISDIR p =
     OtherError ''IsADirectoryError'' (''[Errno 21] Is a directory: '' @ py_repr p)"
| "os_error ENAMETOOLONG p =
     OtherError ''OSError'' (''[Errno 36] File name too long: '' @ py_repr p)"

text \<open>\<^verbatim>\<open>os.path.dirname\<close>\<close>

definition dirname :: "string \<Rightarrow> string" where
  "dirname p =
     (let head = rev (dropWhile (\<lambda>c. c \<noteq> CHR ''/'') (rev p))
      in if head \<noteq> [] \<and> \<not> list_all (\<lambda>c. c = CHR ''/'') head
         then rev (dropWhile (\<lambda>c. c = CHR ''/'') (rev head))
         else head)"

text \<open>\<^verbatim>\<open>os.path.join(a, b)\<close>\<close>

definition path_join :: "string \<Rightarrow> string \<Rightarrow> string" where
  "path_join a b =
     (if prefix ''/'' b then b
      else if a = [] \<or> suffix ''/'' a then a @ b
      else a @ ''/'' @ b)"

text \<open>The components of a path, split at every slash.\<close>

fun split_path :: "string \<Rightarrow> string list" where
  "split_path [] = [[]]"
| "split_path (c # cs) =
     (if c = CHR ''/'' then [] # split_path cs
      else (case split_path cs of [] \<Rightarrow> [[c]] | x # xs \<Rightarrow> (c # x) # xs))"

text \<open>The entry \<open>c\<close> of the directory \<open>dir\<close>.\<close>

definition child :: "string \<Rightarrow> string \<Rightarrow> string" where
  "child dir c = (if dir = ''/'' then ''/'' @ c else dir @ ''/'' @ c)"

text \<open>The length of a name in the file system's encoding, UTF-8.\<close>

definition utf8_length :: "string \<Rightarrow> nat" where
  "utf8_length s = sum_list (map (\<lambda>c. if (of_char c :: nat) < 128 then 1 else 2) s)"

text \<open>
  The walk of the operating system along the components of a path, from the directory
  \<open>cur\<close>: every component but the last has to name a directory; the result is the path of
  the file or directory that is meant.
\<close>

fun walk :: "filesystem \<Rightarrow> string \<Rightarrow> string list \<Rightarrow> errno + string" where
  "walk fs cur [] = Inr cur"
| "walk fs cur (c # cs) =
     (if c = [] \<or> c = ''.'' then walk fs cur cs
      else if c = ''..'' then walk fs (dirname cur) cs
      else if 255 < utf8_length c then Inl ENAMETOOLONG
      else if cs = [] then Inr (child cur c)
      else if child cur c \<in> dirs fs then walk fs (child cur c) cs
      else if files fs (child cur c) \<noteq> None then Inl ENOTDIR
      else Inl ENOENT)"

text \<open>
  \<^verbatim>\<open>with open(filepath, 'w', encoding='utf-8') as f: f.write(file_content)\<close>, for an
  absolute \<open>filepath\<close>: the file is created or overwritten when the walk reaches it, its
  directory exists and it is not a directory itself; no directory is created.
\<close>

definition open_write :: "filesystem \<Rightarrow> string \<Rightarrow> string \<Rightarrow> exception + filesystem" where
  "open_write fs filepath file_content =
     (if CHR 0x00 \<in> set filepath then Inl (ValueError ''embedded null byte'')
      else if 4096 \<le> utf8_length filepath then Inl (os_error ENAMETOOLONG filepath)
      else
        (case walk fs ''/'' (split_path filepath) of
           Inl e \<Rightarrow> Inl (os_error e filepath)
         | Inr target \<Rightarrow>
             if target \<in> dirs fs then Inl (os_error EISDIR filepath)
             else if dirname target \<notin> dirs fs then Inl (os_error ENOENT filepath)
             else Inr (fs\<lparr>files := (files fs)(target \<mapsto> file_content)\<rparr>)))"

text \<open>The directories above \<open>p\<close>, from the top, the root left out.\<close>

definition ancestors :: "string \<Rightarrow> string list" where
  "ancestors p = map (\<lambda>i. take i p) (filter (\<lambda>i. p ! i = CHR ''/'') [1..<length p])"

text \<open>
  \<^verbatim>\<open>os.makedirs(path, exist_ok=True)\<close>, for the absolute path that
  \<^verbatim>\<open>os.path.abspath\<close> returns: a file above the path makes the first
  \<^verbatim>\<open>mkdir\<close> below it fail, a file at the path itself is not accepted by
  \<^verbatim>\<open>exist_ok\<close>.
\<close>

definition makedirs :: "filesystem \<Rightarrow> string \<Rightarrow> exception + filesystem" where
  "makedirs fs path =
     (case filter (\<lambda>d. files fs d \<noteq> None) (ancestors path) of
        a # _ \<Rightarrow>
          Inl (os_error ENOTDIR
                 (hd (filter (\<lambda>d. length a < length d) (ancestors path @ [path]))))
      | [] \<Rightarrow>
          if files fs path \<noteq> None then Inl (os_error EEXIST path)
          else Inr (fs\<lparr>dirs := dirs fs \<union> set (path # ancestors path)\<rparr>))"

section \<open>Extraction of the generated files\<close>

text \<open>The body of the \<^verbatim>\<open>try\<close> statement for one match.\<close>

definition save_file :: "string \<Rightarrow> filesystem \<Rightarrow> string \<times> string \<Rightarrow> exception + filesystem" where
  "save_file workspace fs m =
     (let filename = strip (fst m);
          file_content = strip (snd m);
          filepath = path_join workspace filename
      in open_write fs filepath file_content)"

text \<open>
  The loop over the matches of one message: a failure is logged and the loop goes on; the
  counter grows with every file written.
\<close>

fun save_matches ::
  "string \<Rightarrow> (string \<times> string) list \<Rightarrow> filesystem \<Rightarrow> nat \<Rightarrow> nat \<times> filesystem" where
  "save_matches workspace [] fs files_extracted = (files_extracted, fs)"
| "save_matches workspace (m # matches) fs files_extracted =
     (case save_file workspace fs m of
        Inr fs' \<Rightarrow> save_matches workspace matches fs' (files_extracted + 1)
      | Inl e \<Rightarrow> save_matches workspace matches fs files_extracted)"

text \<open>The loop over \<^verbatim>\<open>groupchat.messages\<close>.\<close>

fun extract_files ::
  "string \<Rightarrow> message list \<Rightarrow> filesystem \<Rightarrow> nat \<Rightarrow> nat \<times> filesystem" where
  "extract_files workspace [] fs files_extracted = (files_extracted, fs)"
| "extract_files workspace (msg # msgs) fs files_extracted =
     (let content = (case msg ''content'' of None \<Rightarrow> [] | Some c \<Rightarrow> c);
          matches = findall content;
          (files_extracted', fs') = save_matches workspace matches fs files_extracted
      in extract_files workspace msgs fs' files_extracted')"

section \<open>Test execution\<close>

text \<open>
  Modelled from the spec: the test executor (\<^verbatim>\<open>utils.test_executor\<close>) is not part of the
  sources. Its report has the shape of the aggregate of section 3 of the specification;
  the fields \<open>tests_status\<close>, \<open>tests_message\<close> and \<open>tests_results\<close> stand for the
  keys \<^verbatim>\<open>status\<close>, \<^verbatim>\<open>message\<close> and \<^verbatim>\<open>test_results\<close>.
\<close>

datatype test_outcome =
  TestOutcome (test_file: string) (outcome: string) (tests_run: int) (failures: int)
    (errors: int) (test_output: string)

record test_report =
  tests_status :: string
  tests_message :: "string option"
  total_tests :: int
  total_passed :: int
  total_failed :: int
  total_errors :: int
  tests_results :: "test_outcome list"

text \<open>
  The collaborators of one run: the configuration loader, the stages, the test executor,
  and the absolute path of the workspace. Each of the first three may raise.
\<close>

record environment =
  get_llm_config :: "raised option"
  generate_reply :: "agent \<Rightarrow> message list \<Rightarrow> raised + string"
  run_tests_in_workspace :: "string \<Rightarrow> filesystem \<Rightarrow> raised + test_report"
  workspace_path :: string

text \<open>
  The \<^verbatim>\<open>try\<close> statement around the test executor: \<^verbatim>\<open>except Exception\<close> turns a
  failure into a report, a \<^verbatim>\<open>KeyboardInterrupt\<close> passes through.
\<close>

definition execute_tests :: "environment \<Rightarrow> filesystem \<Rightarrow> raised + test_report" where
  "execute_tests env fs =
     (case run_tests_in_workspace env (workspace_path env) fs of
        Inr test_results \<Rightarrow> Inr test_results
      | Inl (Exception e) \<Rightarrow>
          Inr \<lparr>tests_status = ''error'',
               tests_message = Some (''Failed to execute tests: '' @ str_of e),
               total_tests = 0, total_passed = 0, total_failed = 0, total_errors = 0,
               tests_results = []\<rparr>
      | Inl KeyboardInterrupt \<Rightarrow> Inl KeyboardInterrupt)"

section \<open>The workflow\<close>

text \<open>
  The dictionary that \<^verbatim>\<open>initiate_workflow\<close> returns; \<open>None\<close> is a key that is not
  there, and \<open>result_messages\<close> stands for the key \<^verbatim>\<open>messages\<close>.
\<close>

record workflow_result =
  status :: string
  error :: "string option"
  review_iterations :: int
  total_messages :: "nat option"
  files_extracted :: "nat option"
  result_messages :: "message list option"
  test_results :: "test_report option"

definition error_result :: "string \<Rightarrow> int \<Rightarrow> workflow_result" where
  "error_result msg n =
     \<lparr>status = ''error'', error = Some msg, review_iterations = n, total_messages = None,
      files_extracted = None, result_messages = None, test_results = None\<rparr>"

text \<open>The message of each \<^verbatim>\<open>except\<close> clause, in the order of the clauses.\<close>

fun error_message :: "raised \<Rightarrow> string" where
  "error_message KeyboardInterrupt = ''Workflow was interrupted by user''"
| "error_message (Exception (TimeoutError m)) = ''Workflow timed out: '' @ m"
| "error_message (Exception (ValueError m)) = ''Configuration error: '' @ m"
| "error_message (Exception (ConnectionError m)) =
     ''Connection error: '' @ m @ ''. Please check your internet connection.''"
| "error_message (Exception (OtherError t m)) = t @ '': '' @ m"

text \<open>
  From the configuration to the end of the conversation: the exception raised, if any,
  the orchestrator, the transcript and the user interface.
\<close>

definition converse ::
  "'u orchestrator \<Rightarrow> environment \<Rightarrow> string \<Rightarrow> 'u
     \<Rightarrow> raised option \<times> 'u orchestrator \<times> message list \<times> 'u" where
  "converse self env user_request u =
     (case get_llm_config env of
        Some e \<Rightarrow> (Some e, self, [], u)
      | None \<Rightarrow>
          (case create_group_chat self of
             Inl e \<Rightarrow> (Some e, self, [], u)
           | Inr agents_list \<Rightarrow>
               (case getitem (agents self) ''admin_proxy'' of
                  Inl e \<Rightarrow> (Some e, self, [], u)
                | Inr admin \<Rightarrow>
                    run_chat (max_round - 1) (generate_reply env) self admin
                      [chat_message admin user_request] u)))"

text \<open>
  After the conversation: the workspace directory, the extraction, the tests and the
  result.
\<close>

definition finish_workflow ::
  "'u orchestrator \<Rightarrow> environment \<Rightarrow> message list \<Rightarrow> filesystem
     \<Rightarrow> (raised + workflow_result) \<times> filesystem" where
  "finish_workflow self env messages fs =
     (case makedirs fs (workspace_path env) of
        Inl e \<Rightarrow> (Inl (Exception e), fs)
      | Inr fs1 \<Rightarrow>
          (case extract_files (workspace_path env) messages fs1 0 of
             (n, fs2) \<Rightarrow>
               (case execute_tests env fs2 of
                  Inl e \<Rightarrow> (Inl e, fs2)
                | Inr report \<Rightarrow>
                    (Inr \<lparr>status = ''success'', error = None,
                          review_iterations = review_iteration_count self,
                          total_messages = Some (length messages),
                          files_extracted = Some n,
                          result_messages = Some messages,
                          test_results = Some report\<rparr>, fs2))))"

text \<open>
  \<^verbatim>\<open>initiate_workflow(self, user_request)\<close>: the result with the orchestrator, the user
  interface and the file system as the call leaves them.
\<close>

definition initiate_workflow ::
  "'u orchestrator \<Rightarrow> environment \<Rightarrow> string \<Rightarrow> 'u \<Rightarrow> filesystem
     \<Rightarrow> workflow_result \<times> 'u orchestrator \<times> 'u \<times> filesystem" where
  "initiate_workflow self env user_request u fs =
     (if user_request = [] \<or> strip user_request = [] then
        (error_result ''User request cannot be empty'' 0, self, u, fs)
      else
        (case converse self env user_request u of
           (Some e, self', messages, u') \<Rightarrow>
             (error_result (error_message e) (review_iteration_count self'), self', u', fs)
         | (None, self', messages, u') \<Rightarrow>
             (case finish_workflow self' env messages fs of
                (Inl e, fs') \<Rightarrow>
                  (error_result (error_message e) (review_iteration_count self'),
                   self', u', fs')
              | (Inr result, fs') \<Rightarrow> (result, self', u', fs'))))"

text \<open>\<^verbatim>\<open>WorkflowOrchestrator.__init__\<close> and \<^verbatim>\<open>run_workflow\<close>.\<close>

definition new_orchestrator ::
  "(string \<rightharpoonup> agent) \<Rightarrow> int
     \<Rightarrow> (string \<Rightarrow> string \<Rightarrow> int option \<Rightarrow> 'u \<Rightarrow> raised option \<times> 'u) option
     \<Rightarrow> 'u orchestrator" where
  "new_orchestrator agents_dict ceiling callback =
     \<lparr>agents = agents_dict, max_review_iterations = ceiling, review_iteration_count = 0,
      progress_callback = callback\<rparr>"

definition run_workflow ::
  "string \<Rightarrow> (string \<rightharpoonup> agent)
     \<Rightarrow> (string \<Rightarrow> string \<Rightarrow> int option \<Rightarrow> 'u \<Rightarrow> raised option \<times> 'u) option
     \<Rightarrow> environment \<Rightarrow> 'u \<Rightarrow> filesystem
     \<Rightarrow> workflow_result \<times> 'u orchestrator \<times> 'u \<times> filesystem" where
  "run_workflow user_request agents_dict callback env u fs =
     initiate_workflow (new_orchestrator agents_dict 5 callback) env user_request u fs"

section \<open>Conditions on the inputs\<close>

text \<open>
  The last message of the transcript, if any, has a \<^verbatim>\<open>content\<close> key (the selector
  reads it with \<^verbatim>\<open>messages[-1]["content"]\<close>).
\<close>

definition has_content :: "message list \<Rightarrow> bool" where
  "has_content messages \<longleftrightarrow> messages = [] \<or> last messages ''content'' \<noteq> None"

text \<open>The progress callback, if one is supplied, returns without raising.\<close>

definition callback_returns :: "'u orchestrator \<Rightarrow> bool" where
  "callback_returns self \<longleftrightarrow>
     (case progress_callback self of
        None \<Rightarrow> True
      | Some callback \<Rightarrow>
          \<forall>stage action iteration u. fst (callback stage action iteration u) = None)"

text \<open>
  The dictionary of agents holds all eight keys, each with the agent whose name the
  selector knows for that stage.
\<close>

definition wired :: "(string \<rightharpoonup> agent) \<Rightarrow> bool" where
  "wired d \<longleftrightarrow>
     d ''admin_proxy'' = Some (Agent ''Admin_Proxy'') \<and>
     d ''product_manager'' = Some (Agent ''Product_Manager'') \<and>
     d ''python_engineer'' = Some (Agent ''Python_Engineer'') \<and>
     d ''code_reviewer'' = Some (Agent ''Code_Reviewer'') \<and>
     d ''tech_writer'' = Some (Agent ''Tech_Writer'') \<and>
     d ''qa_engineer'' = Some (Agent ''QA_Engineer'') \<and>
     d ''devops_engineer'' = Some (Agent ''DevOps_Engineer'') \<and>
     d ''ux_designer'' = Some (Agent ''UX_Designer'')"

text \<open>No stage raises.\<close>

definition stages_reply :: "(agent \<Rightarrow> message list \<Rightarrow> raised + string) \<Rightarrow> bool" where
  "stages_reply reply \<longleftrightarrow> (\<forall>a m. \<exists>c. reply a m = Inr c)"

text \<open>Every reply of the reviewer contains the rework token.\<close>

definition always_rework :: "(agent \<Rightarrow> message list \<Rightarrow> raised + string) \<Rightarrow> bool" where
  "always_rework reply \<longleftrightarrow>
     (\<forall>m c. reply (Agent ''Code_Reviewer'') m = Inr c \<longrightarrow> str_in ''FIX_REQUIRED'' c)"

text \<open>The \<^verbatim>\<open>name\<close> entries of a transcript, in order.\<close>

definition speakers :: "message list \<Rightarrow> string option list" where
  "speakers messages = map (\<lambda>msg. msg ''name'') messages"

section \<open>Lemmas on the selector and the conversation\<close>

lemma notify_ok: "callback_returns self \<Longrightarrow> fst (notify self s a i u) = None"
  by (auto simp: callback_returns_def notify_def split: option.splits)

lemma notify_return_ok:
  "callback_returns self \<Longrightarrow>
   notify_return self a s act i u = (Inr (Some a), self, snd (notify self s act i u))"
  using notify_ok[of self s act i u]
  by (cases "notify self s act i u") (auto simp: notify_return_def)

lemma callback_returns_count [simp]:
  "callback_returns (self\<lparr>review_iteration_count := c\<rparr>) = callback_returns self"
  by (simp add: callback_returns_def)

lemma has_content_snoc [simp]: "has_content (msgs @ [chat_message a c])"
  by (simp add: has_content_def chat_message_def)

lemma speakers_snoc [simp]:
  "speakers (msgs @ [chat_message a c]) = speakers msgs @ [Some (name a)]"
  by (simp add: speakers_def chat_message_def)

lemma speakers_append [simp]: "speakers (xs @ ys) = speakers xs @ speakers ys"
  by (simp add: speakers_def)

text \<open>The content of the last message, as the selector reads it.\<close>

definition last_content :: "message list \<Rightarrow> string" where
  "last_content messages =
     (if messages = [] then []
      else case last messages ''content'' of None \<Rightarrow> [] | Some c \<Rightarrow> c)"

lemma last_message_eq:
  "has_content messages \<Longrightarrow>
   (if messages = [] then Inr [] else getitem (last messages) ''content'') =
     Inr (last_content messages)"
  by (auto simp: has_content_def getitem_def last_content_def split: option.splits)

lemma sel_linear:
  assumes "has_content messages" "callback_returns self"
  shows "name sp = ''Python_Engineer'' \<Longrightarrow> agents self ''code_reviewer'' = Some a \<Longrightarrow>
           custom_speaker_selector self sp messages u =
             (Inr (Some a), self, snd (notify self ''code_reviewer'' ''reviewing'' None u))"
    and "name sp = ''Tech_Writer'' \<Longrightarrow> agents self ''qa_engineer'' = Some a \<Longrightarrow>
           custom_speaker_selector self sp messages u =
             (Inr (Some a), self, snd (notify self ''qa_engineer'' ''testing'' None u))"
    and "name sp = ''QA_Engineer'' \<Longrightarrow> agents self ''devops_engineer'' = Some a \<Longrightarrow>
           custom_speaker_selector self sp messages u =
             (Inr (Some a), self, snd (notify self ''devops_engineer'' ''deploying'' None u))"
    and "name sp = ''DevOps_Engineer'' \<Longrightarrow> agents self ''ux_designer'' = Some a \<Longrightarrow>
           custom_speaker_selector self sp messages u =
             (Inr (Some a), self, snd (notify self ''ux_designer'' ''designing'' None u))"
    and "name sp = ''Product_Manager'' \<Longrightarrow> agents self ''python_engineer'' = Some a \<Longrightarrow>
           custom_speaker_selector self sp messages u =
             (Inr (Some a), self\<lparr>review_iteration_count := 0\<rparr>,
              snd (notify (self\<lparr>review_iteration_count := 0\<rparr>) ''python_engineer'' ''coding'' None u))"
  using assms(2)
  by (simp_all add: custom_speaker_selector_def last_message_eq[OF assms(1)] getitem_def
        notify_return_ok)

lemma sel_ux:
  assumes "has_content messages" "callback_returns self" "name sp = ''UX_Designer''"
  shows "custom_speaker_selector self sp messages u =
           (Inr None, self, snd (notify self ''complete'' ''done'' None u))"
  using assms(2,3) notify_ok[OF assms(2), of "''complete''" "''done''" None u]
  by (cases "notify self ''complete'' ''done'' None u")
     (simp add: custom_speaker_selector_def last_message_eq[OF assms(1)])

lemma sel_admin_start:
  assumes "has_content messages" "callback_returns self" "name sp = ''Admin_Proxy''"
    "\<not> list_ex (\<lambda>msg. msg ''name'' = Some ''UX_Designer'') messages"
    "agents self ''product_manager'' = Some a"
  shows "custom_speaker_selector self sp messages u =
           (Inr (Some a), self, snd (notify self ''product_manager'' ''analyzing'' None u))"
  using assms(2-)
  by (simp add: custom_speaker_selector_def last_message_eq[OF assms(1)] getitem_def
        notify_return_ok)

lemma sel_rework:
  assumes "name sp = ''Code_Reviewer''" "messages \<noteq> []" "last messages ''content'' = Some c"
    "str_in ''FIX_REQUIRED'' c" "callback_returns self"
    "agents self ''python_engineer'' = Some pe" "agents self ''tech_writer'' = Some tw"
  shows "custom_speaker_selector self sp messages u =
           (if max_review_iterations self \<le> review_iteration_count self + 1
            then (Inr (Some tw), self\<lparr>review_iteration_count := review_iteration_count self + 1\<rparr>, u)
            else (Inr (Some pe), self\<lparr>review_iteration_count := review_iteration_count self + 1\<rparr>,
                  snd (notify (self\<lparr>review_iteration_count := review_iteration_count self + 1\<rparr>)
                         ''python_engineer'' ''fixing'' (Some (review_iteration_count self + 1)) u)))"
  using assms
  by (simp add: custom_speaker_selector_def getitem_def notify_return_ok Let_def)

lemma sel_ambiguous:
  assumes "name sp = ''Code_Reviewer''" "messages \<noteq> []" "last messages ''content'' = Some c"
    "\<not> str_in ''FIX_REQUIRED'' c" "\<not> str_in ''APPROVED'' c"
    "agents self ''tech_writer'' = Some tw"
  shows "custom_speaker_selector self sp messages u = (Inr (Some tw), self, u)"
  using assms
  by (simp add: custom_speaker_selector_def getitem_def)

lemma run_chat_step:
  "custom_speaker_selector self sp msgs u = (Inr (Some a), self', u') \<Longrightarrow>
   reply a msgs = Inr c \<Longrightarrow>
   run_chat (Suc n) reply self sp msgs u =
     run_chat n reply self' a (msgs @ [chat_message a c]) u'"
  by simp

lemma run_chat_stop:
  "custom_speaker_selector self sp msgs u = (Inr None, self', u') \<Longrightarrow>
   run_chat (Suc n) reply self sp msgs u = (None, self', msgs, u')"
  by simp

lemma run_tail:
  assumes w: "wired (agents self)" and cb: "callback_returns self"
    and r: "stages_reply reply" and hc: "has_content msgs"
  shows "\<exists>ms u'. run_chat (Suc (Suc (Suc (Suc n)))) reply self (Agent ''Tech_Writer'') msgs u =
            (None, self, msgs @ ms, u') \<and>
          speakers ms = [Some ''QA_Engineer'', Some ''DevOps_Engineer'', Some ''UX_Designer'']"
proof -
  let ?qa = "Agent ''QA_Engineer''" and ?dev = "Agent ''DevOps_Engineer''"
  let ?ux = "Agent ''UX_Designer''"
  from r obtain c1 where c1: "reply ?qa msgs = Inr c1"
    unfolding stages_reply_def by blast
  define m1 where "m1 = msgs @ [chat_message ?qa c1]"
  from r obtain c2 where c2: "reply ?dev m1 = Inr c2"
    unfolding stages_reply_def by blast
  define m2 where "m2 = m1 @ [chat_message ?dev c2]"
  from r obtain c3 where c3: "reply ?ux m2 = Inr c3"
    unfolding stages_reply_def by blast
  define m3 where "m3 = m2 @ [chat_message ?ux c3]"
  have h1: "has_content m1" and h2: "has_content m2" and h3: "has_content m3"
    unfolding m1_def m2_def m3_def by (rule has_content_snoc)+
  from w have ags: "agents self ''qa_engineer'' = Some ?qa"
    "agents self ''devops_engineer'' = Some ?dev" "agents self ''ux_designer'' = Some ?ux"
    by (simp_all add: wired_def)
  define u1 where "u1 = snd (notify self ''qa_engineer'' ''testing'' None u)"
  define u2 where "u2 = snd (notify self ''devops_engineer'' ''deploying'' None u1)"
  define u3 where "u3 = snd (notify self ''ux_designer'' ''designing'' None u2)"
  define u4 where "u4 = snd (notify self ''complete'' ''done'' None u3)"
  have s1: "custom_speaker_selector self (Agent ''Tech_Writer'') msgs u = (Inr (Some ?qa), self, u1)"
    by (simp add: sel_linear(2)[OF hc cb] ags u1_def)
  have s2: "custom_speaker_selector self ?qa m1 u1 = (Inr (Some ?dev), self, u2)"
    by (simp add: sel_linear(3)[OF h1 cb] ags u2_def)
  have s3: "custom_speaker_selector self ?dev m2 u2 = (Inr (Some ?ux), self, u3)"
    by (simp add: sel_linear(4)[OF h2 cb] ags u3_def)
  have s4: "custom_speaker_selector self ?ux m3 u3 = (Inr None, self, u4)"
    by (simp add: sel_ux[OF h3 cb] u4_def)
  have "run_chat (Suc (Suc (Suc (Suc n)))) reply self (Agent ''Tech_Writer'') msgs u =
        run_chat (Suc (Suc (Suc n))) reply self ?qa m1 u1"
    using s1 c1 by (simp add: m1_def)
  also have "\<dots> = run_chat (Suc (Suc n)) reply self ?dev m2 u2"
    using s2 c2 by (simp add: m2_def)
  also have "\<dots> = run_chat (Suc n) reply self ?ux m3 u3"
    using s3 c3 by (simp add: m3_def)
  also have "\<dots> = (None, self, m3, u4)"
    using s4 by simp
  finally have "run_chat (Suc (Suc (Suc (Suc n)))) reply self (Agent ''Tech_Writer'') msgs u =
      (None, self, msgs @ [chat_message ?qa c1, chat_message ?dev c2, chat_message ?ux c3], u4)"
    by (simp add: m1_def m2_def m3_def)
  moreover have "speakers [chat_message ?qa c1, chat_message ?dev c2, chat_message ?ux c3] =
      [Some ''QA_Engineer'', Some ''DevOps_Engineer'', Some ''UX_Designer'']"
    by (simp add: speakers_def chat_message_def)
  ultimately show ?thesis by blast
qed


lemma wired_count [simp]: "agents (self\<lparr>review_iteration_count := c\<rparr>) = agents self"
  by simp

lemma review_loop:
  assumes r: "stages_reply reply" and rw: "always_rework reply"
  shows "wired (agents self) \<Longrightarrow> callback_returns self \<Longrightarrow> has_content msgs \<Longrightarrow>
         max_review_iterations self = review_iteration_count self + 1 + int k \<Longrightarrow>
         \<exists>ms u'. run_chat (2 * k + 6 + n) reply self (Agent ''Python_Engineer'') msgs u =
            (None, self\<lparr>review_iteration_count := max_review_iterations self\<rparr>, msgs @ ms, u') \<and>
          speakers ms =
            concat (replicate k [Some ''Code_Reviewer'', Some ''Python_Engineer'']) @
            [Some ''Code_Reviewer'', Some ''Tech_Writer'', Some ''QA_Engineer'',
             Some ''DevOps_Engineer'', Some ''UX_Designer'']"
proof (induction k arbitrary: self msgs u)
  case 0
  let ?cr = "Agent ''Code_Reviewer''" and ?tw = "Agent ''Tech_Writer''"
  let ?pe = "Agent ''Python_Engineer''"
  let ?self' = "self\<lparr>review_iteration_count := review_iteration_count self + 1\<rparr>"
  from "0.prems" have w: "wired (agents self)" and cb: "callback_returns self"
    and hc: "has_content msgs"
    and mx: "max_review_iterations self = review_iteration_count self + 1"
    by simp_all
  from w have ags: "agents self ''code_reviewer'' = Some ?cr"
    "agents self ''tech_writer'' = Some ?tw" "agents self ''python_engineer'' = Some ?pe"
    by (simp_all add: wired_def)
  from r obtain c1 where c1: "reply ?cr msgs = Inr c1"
    unfolding stages_reply_def by blast
  with rw have fx: "str_in ''FIX_REQUIRED'' c1"
    unfolding always_rework_def by blast
  define m1 where "m1 = msgs @ [chat_message ?cr c1]"
  from r obtain c2 where c2: "reply ?tw m1 = Inr c2"
    unfolding stages_reply_def by blast
  define m2 where "m2 = m1 @ [chat_message ?tw c2]"
  define u1 where "u1 = snd (notify self ''code_reviewer'' ''reviewing'' None u)"
  have h2: "has_content m2"
    unfolding m2_def by (rule has_content_snoc)
  have s1: "custom_speaker_selector self ?pe msgs u = (Inr (Some ?cr), self, u1)"
    by (simp add: sel_linear(1)[OF hc cb] ags u1_def)
  have s2: "custom_speaker_selector self ?cr m1 u1 = (Inr (Some ?tw), ?self', u1)"
    using sel_rework[of ?cr m1 c1 self ?pe ?tw u1] fx cb ags mx
    by (simp add: m1_def chat_message_def)
  have w': "wired (agents ?self')" and cb': "callback_returns ?self'"
    using w cb by simp_all
  from run_tail[OF w' cb' r h2, of n u1] obtain ms u' where
    t: "run_chat (Suc (Suc (Suc (Suc n)))) reply ?self' ?tw m2 u1 = (None, ?self', m2 @ ms, u')"
    and sp: "speakers ms = [Some ''QA_Engineer'', Some ''DevOps_Engineer'', Some ''UX_Designer'']"
    by blast
  have eq: "2 * 0 + 6 + n = Suc (Suc (Suc (Suc (Suc (Suc n)))))"
    by simp
  have "run_chat (2 * 0 + 6 + n) reply self ?pe msgs u =
        run_chat (Suc (Suc (Suc (Suc (Suc n))))) reply self ?cr m1 u1"
    unfolding eq m1_def by (rule run_chat_step[where reply = reply, OF s1 c1])
  also have "\<dots> = run_chat (Suc (Suc (Suc (Suc n)))) reply ?self' ?tw m2 u1"
    unfolding m2_def by (rule run_chat_step[where reply = reply, OF s2 c2])
  also note t
  finally have "run_chat (2 * 0 + 6 + n) reply self ?pe msgs u =
      (None, self\<lparr>review_iteration_count := max_review_iterations self\<rparr>,
       msgs @ ([chat_message ?cr c1, chat_message ?tw c2] @ ms), u')"
    by (simp add: m1_def m2_def mx)
  moreover have "speakers ([chat_message ?cr c1, chat_message ?tw c2] @ ms) =
      concat (replicate 0 [Some ''Code_Reviewer'', Some ''Python_Engineer'']) @
      [Some ''Code_Reviewer'', Some ''Tech_Writer'', Some ''QA_Engineer'',
       Some ''DevOps_Engineer'', Some ''UX_Designer'']"
    using sp by (simp add: speakers_def chat_message_def)
  ultimately show ?case by blast
next
  case (Suc k)
  let ?cr = "Agent ''Code_Reviewer''" and ?tw = "Agent ''Tech_Writer''"
  let ?pe = "Agent ''Python_Engineer''"
  let ?self' = "self\<lparr>review_iteration_count := review_iteration_count self + 1\<rparr>"
  from Suc.prems have w: "wired (agents self)" and cb: "callback_returns self"
    and hc: "has_content msgs"
    and mx: "max_review_iterations self = review_iteration_count self + 1 + int (Suc k)"
    by simp_all
  from w have ags: "agents self ''code_reviewer'' = Some ?cr"
    "agents self ''tech_writer'' = Some ?tw" "agents self ''python_engineer'' = Some ?pe"
    by (simp_all add: wired_def)
  from r obtain c1 where c1: "reply ?cr msgs = Inr c1"
    unfolding stages_reply_def by blast
  with rw have fx: "str_in ''FIX_REQUIRED'' c1"
    unfolding always_rework_def by blast
  define m1 where "m1 = msgs @ [chat_message ?cr c1]"
  from r obtain c2 where c2: "reply ?pe m1 = Inr c2"
    unfolding stages_reply_def by blast
  define m2 where "m2 = m1 @ [chat_message ?pe c2]"
  define u1 where "u1 = snd (notify self ''code_reviewer'' ''reviewing'' None u)"
  define u2 where "u2 = snd (notify ?self' ''python_engineer'' ''fixing''
      (Some (review_iteration_count self + 1)) u1)"
  have h2: "has_content m2"
    unfolding m2_def by (rule has_content_snoc)
  have s1: "custom_speaker_selector self ?pe msgs u = (Inr (Some ?cr), self, u1)"
    by (simp add: sel_linear(1)[OF hc cb] ags u1_def)
  have s2: "custom_speaker_selector self ?cr m1 u1 = (Inr (Some ?pe), ?self', u2)"
    using sel_rework[of ?cr m1 c1 self ?pe ?tw u1] fx cb ags mx
    by (simp add: m1_def chat_message_def u2_def)
  have w': "wired (agents ?self')" and cb': "callback_returns ?self'"
    using w cb by simp_all
  have mx': "max_review_iterations ?self' = review_iteration_count ?self' + 1 + int k"
    using mx by simp
  from Suc.IH[OF w' cb' h2 mx', of u2] obtain ms u' where
    t: "run_chat (2 * k + 6 + n) reply ?self' ?pe m2 u2 =
          (None, ?self'\<lparr>review_iteration_count := max_review_iterations ?self'\<rparr>, m2 @ ms, u')"
    and sp: "speakers ms =
        concat (replicate k [Some ''Code_Reviewer'', Some ''Python_Engineer'']) @
        [Some ''Code_Reviewer'', Some ''Tech_Writer'', Some ''QA_Engineer'',
         Some ''DevOps_Engineer'', Some ''UX_Designer'']"
    by blast
  have eq: "2 * Suc k + 6 + n = Suc (Suc (2 * k + 6 + n))"
    by simp
  have "run_chat (2 * Suc k + 6 + n) reply self ?pe msgs u =
        run_chat (Suc (2 * k + 6 + n)) reply self ?cr m1 u1"
    unfolding eq m1_def by (rule run_chat_step[where reply = reply, OF s1 c1])
  also have "\<dots> = run_chat (2 * k + 6 + n) reply ?self' ?pe m2 u2"
    unfolding m2_def by (rule run_chat_step[where reply = reply, OF s2 c2])
  also note t
  finally have "run_chat (2 * Suc k + 6 + n) reply self ?pe msgs u =
      (None, self\<lparr>review_iteration_count := max_review_iterations self\<rparr>,
       msgs @ ([chat_message ?cr c1, chat_message ?pe c2] @ ms), u')"
    by (simp add: m1_def m2_def)
  moreover have "speakers ([chat_message ?cr c1, chat_message ?pe c2] @ ms) =
      concat (replicate (Suc k) [Some ''Code_Reviewer'', Some ''Python_Engineer'']) @
      [Some ''Code_Reviewer'', Some ''Tech_Writer'', Some ''QA_Engineer'',
       Some ''DevOps_Engineer'', Some ''UX_Designer'']"
    using sp by (simp add: speakers_def chat_message_def)
  ultimately show ?case by blast
qed

lemma run_from_start:
  assumes r: "stages_reply reply" and rw: "always_rework reply"
    and w: "wired (agents self)" and cb: "callback_returns self"
    and mx: "max_review_iterations self = 1 + int k"
  shows "\<exists>ms u'. run_chat (2 * k + 8 + n) reply self (Agent ''Admin_Proxy'')
              [chat_message (Agent ''Admin_Proxy'') request] u =
            (None, self\<lparr>review_iteration_count := max_review_iterations self\<rparr>,
             chat_message (Agent ''Admin_Proxy'') request # ms, u') \<and>
          speakers ms =
            [Some ''Product_Manager'', Some ''Python_Engineer''] @
            concat (replicate k [Some ''Code_Reviewer'', Some ''Python_Engineer'']) @
            [Some ''Code_Reviewer'', Some ''Tech_Writer'', Some ''QA_Engineer'',
             Some ''DevOps_Engineer'', Some ''UX_Designer'']"
proof -
  let ?ad = "Agent ''Admin_Proxy''" and ?pm = "Agent ''Product_Manager''"
  let ?pe = "Agent ''Python_Engineer''"
  let ?self' = "self\<lparr>review_iteration_count := 0\<rparr>"
  define m0 where "m0 = [chat_message ?ad request]"
  from w have ags: "agents self ''product_manager'' = Some ?pm"
    "agents self ''python_engineer'' = Some ?pe"
    by (simp_all add: wired_def)
  from r obtain c1 where c1: "reply ?pm m0 = Inr c1"
    unfolding stages_reply_def by blast
  define m1 where "m1 = m0 @ [chat_message ?pm c1]"
  from r obtain c2 where c2: "reply ?pe m1 = Inr c2"
    unfolding stages_reply_def by blast
  define m2 where "m2 = m1 @ [chat_message ?pe c2]"
  define u1 where "u1 = snd (notify self ''product_manager'' ''analyzing'' None u)"
  define u2 where "u2 = snd (notify ?self' ''python_engineer'' ''coding'' None u1)"
  have h0: "has_content m0"
    by (simp add: m0_def has_content_def chat_message_def)
  have h1: "has_content m1" and h2: "has_content m2"
    unfolding m1_def m2_def by (rule has_content_snoc)+
  have s1: "custom_speaker_selector self ?ad m0 u = (Inr (Some ?pm), self, u1)"
    using sel_admin_start[OF h0 cb, of ?ad ?pm u] ags
    by (simp add: m0_def chat_message_def u1_def)
  have s2: "custom_speaker_selector self ?pm m1 u1 = (Inr (Some ?pe), ?self', u2)"
    by (simp add: sel_linear(5)[OF h1 cb] ags u2_def)
  have w': "wired (agents ?self')" and cb': "callback_returns ?self'"
    using w cb by simp_all
  have mx': "max_review_iterations ?self' = review_iteration_count ?self' + 1 + int k"
    using mx by simp
  from review_loop[OF r rw w' cb' h2 mx', of n u2] obtain ms u' where
    t: "run_chat (2 * k + 6 + n) reply ?self' ?pe m2 u2 =
          (None, ?self'\<lparr>review_iteration_count := max_review_iterations ?self'\<rparr>, m2 @ ms, u')"
    and sp: "speakers ms =
        concat (replicate k [Some ''Code_Reviewer'', Some ''Python_Engineer'']) @
        [Some ''Code_Reviewer'', Some ''Tech_Writer'', Some ''QA_Engineer'',
         Some ''DevOps_Engineer'', Some ''UX_Designer'']"
    by blast
  have eq: "2 * k + 8 + n = Suc (Suc (2 * k + 6 + n))"
    by simp
  have "run_chat (2 * k + 8 + n) reply self ?ad m0 u =
        run_chat (Suc (2 * k + 6 + n)) reply self ?pm m1 u1"
    unfolding eq m1_def by (rule run_chat_step[where reply = reply, OF s1 c1])
  also have "\<dots> = run_chat (2 * k + 6 + n) reply ?self' ?pe m2 u2"
    unfolding m2_def by (rule run_chat_step[where reply = reply, OF s2 c2])
  also note t
  finally have "run_chat (2 * k + 8 + n) reply self ?ad m0 u =
      (None, self\<lparr>review_iteration_count := max_review_iterations self\<rparr>,
       chat_message ?ad request # ([chat_message ?pm c1, chat_message ?pe c2] @ ms), u')"
    by (simp add: m0_def m1_def m2_def)
  moreover have "speakers ([chat_message ?pm c1, chat_message ?pe c2] @ ms) =
      [Some ''Product_Manager'', Some ''Python_Engineer''] @
      concat (replicate k [Some ''Code_Reviewer'', Some ''Python_Engineer'']) @
      [Some ''Code_Reviewer'', Some ''Tech_Writer'', Some ''QA_Engineer'',
       Some ''DevOps_Engineer'', Some ''UX_Designer'']"
    using sp by (simp add: speakers_def chat_message_def)
  ultimately show ?thesis unfolding m0_def by blast
qed

text \<open>
  The decision of the selector on an orchestrator without a callback: the result and the
  counter after the call.
\<close>

definition decision ::
  "(string \<rightharpoonup> agent) \<Rightarrow> int \<Rightarrow> int \<Rightarrow> agent \<Rightarrow> message list
     \<Rightarrow> (raised + agent option) \<times> int" where
  "decision d ceiling counter last_speaker messages =
     (case custom_speaker_selector
             \<lparr>agents = d, max_review_iterations = ceiling, review_iteration_count = counter,
              progress_callback = None\<rparr> last_speaker messages () of
        (r, self', u') \<Rightarrow> (r, review_iteration_count self'))"

lemma names_cases:
  obtains "name sp = ''Admin_Proxy''" | "name sp = ''Product_Manager''"
    | "name sp = ''Python_Engineer''" | "name sp = ''Code_Reviewer''"
    | "name sp = ''Tech_Writer''" | "name sp = ''QA_Engineer''"
    | "name sp = ''DevOps_Engineer''" | "name sp = ''UX_Designer''"
    | "name sp \<noteq> ''Admin_Proxy''" "name sp \<noteq> ''Product_Manager''"
      "name sp \<noteq> ''Python_Engineer''" "name sp \<noteq> ''Code_Reviewer''"
      "name sp \<noteq> ''Tech_Writer''" "name sp \<noteq> ''QA_Engineer''"
      "name sp \<noteq> ''DevOps_Engineer''" "name sp \<noteq> ''UX_Designer''"
  by fast

lemma nr_fst: "fst (notify_return self a s act i u) = Inr r \<Longrightarrow> r = Some a"
  by (auto simp: notify_return_def split: prod.splits option.splits)

lemma nr_self: "fst (snd (notify_return self a s act i u)) = self"
  by (auto simp: notify_return_def split: prod.splits option.splits)

lemma nr_none:
  "progress_callback self = None \<Longrightarrow> notify_return self a s act i u = (Inr (Some a), self, u)"
  by (simp add: notify_return_def notify_def)



text \<open>The first statement of the selector: the content of the last message.\<close>

definition read_last :: "message list \<Rightarrow> raised + string" where
  "read_last messages = (if messages = [] then Inr [] else getitem (last messages) ''content'')"

text \<open>
  The shape of a linear branch: look the next agent up in \<open>self\<close>, then notify and
  return with the orchestrator \<open>self'\<close>.
\<close>

definition lookup_notify ::
  "'u orchestrator \<Rightarrow> 'u orchestrator \<Rightarrow> string \<Rightarrow> string \<Rightarrow> int option \<Rightarrow> 'u
     \<Rightarrow> (raised + agent option) \<times> 'u orchestrator \<times> 'u" where
  "lookup_notify self self' key action iteration u =
     (case getitem (agents self) key of
        Inl e \<Rightarrow> (Inl e, self, u)
      | Inr next_agent \<Rightarrow> notify_return self' next_agent key action iteration u)"

lemma selector_unfold:
  "name sp = ''Product_Manager'' \<Longrightarrow> read_last messages = Inr c \<Longrightarrow>
     custom_speaker_selector self sp messages u =
       lookup_notify self (self\<lparr>review_iteration_count := 0\<rparr>) ''python_engineer'' ''coding'' None u"
  "name sp = ''Python_Engineer'' \<Longrightarrow> read_last messages = Inr c \<Longrightarrow>
     custom_speaker_selector self sp messages u =
       lookup_notify self self ''code_reviewer'' ''reviewing'' None u"
  "name sp = ''Tech_Writer'' \<Longrightarrow> read_last messages = Inr c \<Longrightarrow>
     custom_speaker_selector self sp messages u =
       lookup_notify self self ''qa_engineer'' ''testing'' None u"
  "name sp = ''QA_Engineer'' \<Longrightarrow> read_last messages = Inr c \<Longrightarrow>
     custom_speaker_selector self sp messages u =
       lookup_notify self self ''devops_engineer'' ''deploying'' None u"
  "name sp = ''DevOps_Engineer'' \<Longrightarrow> read_last messages = Inr c \<Longrightarrow>
     custom_speaker_selector self sp messages u =
       lookup_notify self self ''ux_designer'' ''designing'' None u"
  by (simp_all add: custom_speaker_selector_def read_last_def lookup_notify_def)

lemma selector_unfold_admin:
  "name sp = ''Admin_Proxy'' \<Longrightarrow> read_last messages = Inr c \<Longrightarrow>
     custom_speaker_selector self sp messages u =
       (if list_ex (\<lambda>msg. msg ''name'' = Some ''UX_Designer'') messages then (Inr None, self, u)
        else lookup_notify self self ''product_manager'' ''analyzing'' None u)"
  by (simp add: custom_speaker_selector_def read_last_def lookup_notify_def)

lemma selector_unfold_ux:
  "name sp = ''UX_Designer'' \<Longrightarrow> read_last messages = Inr c \<Longrightarrow>
     custom_speaker_selector self sp messages u =
       (case notify self ''complete'' ''done'' None u of
          (Some e, u') \<Rightarrow> (Inl e, self, u')
        | (None, u') \<Rightarrow> (Inr None, self, u'))"
  by (simp add: custom_speaker_selector_def read_last_def)

lemma selector_unfold_unknown:
  "name sp \<noteq> ''Admin_Proxy'' \<Longrightarrow> name sp \<noteq> ''Product_Manager'' \<Longrightarrow>
   name sp \<noteq> ''Python_Engineer'' \<Longrightarrow> name sp \<noteq> ''Code_Reviewer'' \<Longrightarrow>
   name sp \<noteq> ''Tech_Writer'' \<Longrightarrow> name sp \<noteq> ''QA_Engineer'' \<Longrightarrow>
   name sp \<noteq> ''DevOps_Engineer'' \<Longrightarrow> name sp \<noteq> ''UX_Designer'' \<Longrightarrow>
   read_last messages = Inr c \<Longrightarrow>
     custom_speaker_selector self sp messages u = (Inr None, self, u)"
  by (simp add: custom_speaker_selector_def read_last_def)

lemma selector_unfold_reviewer:
  "name sp = ''Code_Reviewer'' \<Longrightarrow> read_last messages = Inr c \<Longrightarrow>
     custom_speaker_selector self sp messages u =
       (if str_in ''FIX_REQUIRED'' c then
          (if max_review_iterations self \<le> review_iteration_count self + 1 then
             (case getitem (agents self) ''tech_writer'' of
                Inl e \<Rightarrow>
                  (Inl e, self\<lparr>review_iteration_count := review_iteration_count self + 1\<rparr>, u)
              | Inr a \<Rightarrow>
                  (Inr (Some a),
                   self\<lparr>review_iteration_count := review_iteration_count self + 1\<rparr>, u))
           else
             (case getitem (agents self) ''python_engineer'' of
                Inl e \<Rightarrow>
                  (Inl e, self\<lparr>review_iteration_count := review_iteration_count self + 1\<rparr>, u)
              | Inr a \<Rightarrow>
                  notify_return (self\<lparr>review_iteration_count := review_iteration_count self + 1\<rparr>)
                    a ''python_engineer'' ''fixing'' (Some (review_iteration_count self + 1)) u))
        else if str_in ''APPROVED'' c then
          lookup_notify self self ''tech_writer'' ''documenting'' None u
        else
          (case getitem (agents self) ''tech_writer'' of
             Inl e \<Rightarrow> (Inl e, self, u)
           | Inr a \<Rightarrow> (Inr (Some a), self, u)))"
  by (simp add: custom_speaker_selector_def read_last_def lookup_notify_def Let_def
        split: sum.splits)

lemma selector_unfold_error:
  "read_last messages = Inl e \<Longrightarrow> custom_speaker_selector self sp messages u = (Inl e, self, u)"
  by (simp add: custom_speaker_selector_def read_last_def)


lemma lookup_notify_decision:
  assumes "fst (lookup_notify self self' key action iteration u) = Inr r"
    and "agents self0 = agents self"
    and "progress_callback self0' = None"
    and "review_iteration_count self0' = review_iteration_count self'"
  shows "(case lookup_notify self0 self0' key action iteration v of
            (r, s, u') \<Rightarrow> (r, review_iteration_count s)) =
         (Inr r, review_iteration_count (fst (snd (lookup_notify self self' key action iteration u))))"
  using assms
  by (auto simp: lookup_notify_def nr_none nr_self split: sum.splits dest: nr_fst)

lemma selector_decision:
  assumes "fst (custom_speaker_selector self sp messages u) = Inr r"
  shows "decision (agents self) (max_review_iterations self) (review_iteration_count self)
           sp messages =
         (Inr r, review_iteration_count (fst (snd (custom_speaker_selector self sp messages u))))"
proof (cases "read_last messages")
  case (Inl e)
  with assms show ?thesis
    by (simp add: selector_unfold_error)
next
  case (Inr c)
  let ?s0 = "\<lparr>agents = agents self, max_review_iterations = max_review_iterations self,
      review_iteration_count = review_iteration_count self,
      progress_callback = None :: (string \<Rightarrow> string \<Rightarrow> int option \<Rightarrow> unit \<Rightarrow> raised option \<times> unit) option\<rparr>"
  show ?thesis
  proof (cases rule: names_cases[of sp])
    case 1
    with assms Inr show ?thesis
      using lookup_notify_decision[of self self "''product_manager''" "''analyzing''" None u r ?s0 ?s0 "()"]
      by (simp add: decision_def selector_unfold_admin split: if_splits)
  next
    case 2
    with assms Inr show ?thesis
      using lookup_notify_decision[of self "self\<lparr>review_iteration_count := 0\<rparr>"
          "''python_engineer''" "''coding''" None u r ?s0 "?s0\<lparr>review_iteration_count := 0\<rparr>" "()"]
      by (simp add: decision_def selector_unfold)
  next
    case 3
    with assms Inr show ?thesis
      using lookup_notify_decision[of self self "''code_reviewer''" "''reviewing''" None u r ?s0 ?s0 "()"]
      by (simp add: decision_def selector_unfold)
  next
    case 4
    with assms Inr show ?thesis
      using lookup_notify_decision[of self self "''tech_writer''" "''documenting''" None u r ?s0 ?s0 "()"]
      by (auto simp: decision_def selector_unfold_reviewer nr_none nr_self
            split: if_splits sum.splits dest: nr_fst)
  next
    case 5
    with assms Inr show ?thesis
      using lookup_notify_decision[of self self "''qa_engineer''" "''testing''" None u r ?s0 ?s0 "()"]
      by (simp add: decision_def selector_unfold)
  next
    case 6
    with assms Inr show ?thesis
      using lookup_notify_decision[of self self "''devops_engineer''" "''deploying''" None u r ?s0 ?s0 "()"]
      by (simp add: decision_def selector_unfold)
  next
    case 7
    with assms Inr show ?thesis
      using lookup_notify_decision[of self self "''ux_designer''" "''designing''" None u r ?s0 ?s0 "()"]
      by (simp add: decision_def selector_unfold)
  next
    case 8
    with assms Inr show ?thesis
      by (cases "notify self ''complete'' ''done'' None u")
         (auto simp: decision_def selector_unfold_ux notify_def split: option.splits)
  next
    case 9
    with assms Inr show ?thesis
      by (simp add: decision_def selector_unfold_unknown)
  qed
qed

text \<open>Successive calls of the selector on one orchestrator object.\<close>

fun selector_calls ::
  "'u orchestrator \<Rightarrow> (agent \<times> message list) list \<Rightarrow> 'u
     \<Rightarrow> (raised + agent option) list \<times> 'u orchestrator \<times> 'u" where
  "selector_calls self [] u = ([], self, u)"
| "selector_calls self (call # calls) u =
     (case custom_speaker_selector self (fst call) (snd call) u of
        (r, self', u') \<Rightarrow>
          (case selector_calls self' calls u' of
             (rs, self'', u'') \<Rightarrow> (r # rs, self'', u'')))"

text \<open>A call on a reviewer output that contains the rework token.\<close>

definition rework_signal :: "agent \<times> message list \<Rightarrow> bool" where
  "rework_signal call \<longleftrightarrow>
     name (fst call) = ''Code_Reviewer'' \<and> snd call \<noteq> [] \<and>
     (case last (snd call) ''content'' of
        None \<Rightarrow> False
      | Some c \<Rightarrow> str_in ''FIX_REQUIRED'' c)"

text \<open>Inputs for the examples.\<close>

definition standard_agents :: "string \<rightharpoonup> agent" where
  "standard_agents =
     [''admin_proxy'' \<mapsto> Agent ''Admin_Proxy'',
      ''product_manager'' \<mapsto> Agent ''Product_Manager'',
      ''python_engineer'' \<mapsto> Agent ''Python_Engineer'',
      ''code_reviewer'' \<mapsto> Agent ''Code_Reviewer'',
      ''tech_writer'' \<mapsto> Agent ''Tech_Writer'',
      ''qa_engineer'' \<mapsto> Agent ''QA_Engineer'',
      ''devops_engineer'' \<mapsto> Agent ''DevOps_Engineer'',
      ''ux_designer'' \<mapsto> Agent ''UX_Designer'']"


definition counting_callback :: "string \<Rightarrow> string \<Rightarrow> int option \<Rightarrow> nat \<Rightarrow> raised option \<times> nat" where
  "counting_callback stage action iteration u = (None, Suc u)"

lemma wired_standard: "wired standard_agents"
  by (simp add: wired_def standard_agents_def)

lemma selector_calls_rework:
  assumes cb: "callback_returns self"
    and pe: "agents self ''python_engineer'' = Some pe"
    and tw: "agents self ''tech_writer'' = Some tw"
  shows "list_all rework_signal calls \<Longrightarrow> length calls = Suc k \<Longrightarrow>
         max_review_iterations self = review_iteration_count self + 1 + int k \<Longrightarrow>
         fst (selector_calls self calls u) = replicate k (Inr (Some pe)) @ [Inr (Some tw)] \<and>
         review_iteration_count (fst (snd (selector_calls self calls u))) =
           max_review_iterations self"
  using cb pe tw
proof (induction k arbitrary: self calls u)
  case 0
  then obtain call where calls: "calls = [call]"
    by (cases calls) auto
  with "0.prems" obtain c where c: "name (fst call) = ''Code_Reviewer''" "snd call \<noteq> []"
    "last (snd call) ''content'' = Some c" "str_in ''FIX_REQUIRED'' c"
    by (auto simp: rework_signal_def split: option.splits)
  show ?case
    using sel_rework[OF c "0.prems"(4,5,6), of u] "0.prems"(3)
    by (simp add: calls)
next
  case (Suc k)
  then obtain call rest where calls: "calls = call # rest" and len: "length rest = Suc k"
    by (cases calls) auto
  with Suc.prems obtain c where c: "name (fst call) = ''Code_Reviewer''" "snd call \<noteq> []"
    "last (snd call) ''content'' = Some c" "str_in ''FIX_REQUIRED'' c"
    by (auto simp: rework_signal_def split: option.splits)
  let ?self' = "self\<lparr>review_iteration_count := review_iteration_count self + 1\<rparr>"
  let ?u' = "snd (notify ?self' ''python_engineer'' ''fixing''
      (Some (review_iteration_count self + 1)) u)"
  have s: "custom_speaker_selector self (fst call) (snd call) u = (Inr (Some pe), ?self', ?u')"
    using sel_rework[OF c Suc.prems(4,5,6), of u] Suc.prems(3)
    by simp
  have rest: "list_all rework_signal rest"
    using Suc.prems(1) calls by simp
  have mx': "max_review_iterations ?self' = review_iteration_count ?self' + 1 + int k"
    using Suc.prems(3) by simp
  have ih: "fst (selector_calls ?self' rest ?u') = replicate k (Inr (Some pe)) @ [Inr (Some tw)] \<and>
      review_iteration_count (fst (snd (selector_calls ?self' rest ?u'))) =
        max_review_iterations ?self'"
    using Suc.IH[OF rest len mx', of ?u'] Suc.prems(4,5,6) by simp
  obtain rs self'' u'' where sc: "selector_calls ?self' rest ?u' = (rs, self'', u'')"
    by (cases "selector_calls ?self' rest ?u'") auto
  show ?case
    using ih s sc by (simp add: calls)
qed

section \<open>Lemmas on the workflow\<close>

text \<open>No reply of the reviewer contains the rework token or the approval token.\<close>

definition never_rework :: "(agent \<Rightarrow> message list \<Rightarrow> raised + string) \<Rightarrow> bool" where
  "never_rework reply \<longleftrightarrow>
     (\<forall>m c. reply (Agent ''Code_Reviewer'') m = Inr c \<longrightarrow>
        \<not> str_in ''FIX_REQUIRED'' c \<and> \<not> str_in ''APPROVED'' c)"

text \<open>No file stands where the workspace directory or a directory above it has to be.\<close>

definition workspace_free :: "filesystem \<Rightarrow> string \<Rightarrow> bool" where
  "workspace_free fs path \<longleftrightarrow> \<not> list_ex (\<lambda>d. files fs d \<noteq> None) (path # ancestors path)"

text \<open>The test executor is never interrupted from the keyboard.\<close>

definition tests_not_interrupted :: "environment \<Rightarrow> bool" where
  "tests_not_interrupted env \<longleftrightarrow>
     (\<forall>path fs. run_tests_in_workspace env path fs \<noteq> Inl KeyboardInterrupt)"

lemma makedirs_free:
  assumes "workspace_free fs path"
  obtains fs1 where "makedirs fs path = Inr fs1"
proof -
  from assms have "filter (\<lambda>d. files fs d \<noteq> None) (ancestors path) = []"
    and "files fs path = None"
    by (auto simp: workspace_free_def filter_empty_conv list_ex_iff)
  then show ?thesis
    using that by (simp add: makedirs_def)
qed

lemma strip_blank:
  assumes "list_all isspace s"
  shows "strip s = []"
proof -
  from assms have d: "dropWhile isspace s = []"
    by (simp add: list_all_iff)
  show ?thesis
    unfolding strip_def d by simp
qed

lemma create_group_chat_wired: "wired (agents self) \<Longrightarrow> \<exists>l. create_group_chat self = Inr l"
  by (simp add: create_group_chat_def wired_def getitem_def)

lemma converse_wired:
  assumes "get_llm_config env = None" "wired (agents self)"
  shows "converse self env request u =
           run_chat 49 (generate_reply env) self (Agent ''Admin_Proxy'')
             [chat_message (Agent ''Admin_Proxy'') request] u"
proof -
  from assms(2) obtain l where "create_group_chat self = Inr l"
    using create_group_chat_wired by blast
  moreover from assms(2) have "getitem (agents self) ''admin_proxy'' = Inr (Agent ''Admin_Proxy'')"
    by (simp add: wired_def getitem_def)
  ultimately show ?thesis
    using assms(1) by (simp add: converse_def max_round_def)
qed

lemma run_no_rework:
  assumes r: "stages_reply reply" and nr: "never_rework reply"
    and w: "wired (agents self)" and cb: "callback_returns self"
  shows "\<exists>ms u'. run_chat (8 + n) reply self (Agent ''Admin_Proxy'')
              [chat_message (Agent ''Admin_Proxy'') request] u =
            (None, self\<lparr>review_iteration_count := 0\<rparr>,
             chat_message (Agent ''Admin_Proxy'') request # ms, u') \<and>
          speakers ms =
            [Some ''Product_Manager'', Some ''Python_Engineer'', Some ''Code_Reviewer'',
             Some ''Tech_Writer'', Some ''QA_Engineer'', Some ''DevOps_Engineer'',
             Some ''UX_Designer'']"
proof -
  let ?ad = "Agent ''Admin_Proxy''" and ?pm = "Agent ''Product_Manager''"
  let ?pe = "Agent ''Python_Engineer''" and ?cr = "Agent ''Code_Reviewer''"
  let ?tw = "Agent ''Tech_Writer''"
  let ?self' = "self\<lparr>review_iteration_count := 0\<rparr>"
  define m0 where "m0 = [chat_message ?ad request]"
  from w have ags: "agents self ''product_manager'' = Some ?pm"
    "agents self ''python_engineer'' = Some ?pe" "agents self ''code_reviewer'' = Some ?cr"
    "agents self ''tech_writer'' = Some ?tw"
    by (simp_all add: wired_def)
  from r obtain c1 where c1: "reply ?pm m0 = Inr c1"
    unfolding stages_reply_def by blast
  define m1 where "m1 = m0 @ [chat_message ?pm c1]"
  from r obtain c2 where c2: "reply ?pe m1 = Inr c2"
    unfolding stages_reply_def by blast
  define m2 where "m2 = m1 @ [chat_message ?pe c2]"
  from r obtain c3 where c3: "reply ?cr m2 = Inr c3"
    unfolding stages_reply_def by blast
  with nr have amb: "\<not> str_in ''FIX_REQUIRED'' c3" "\<not> str_in ''APPROVED'' c3"
    unfolding never_rework_def by blast+
  define m3 where "m3 = m2 @ [chat_message ?cr c3]"
  from r obtain c4 where c4: "reply ?tw m3 = Inr c4"
    unfolding stages_reply_def by blast
  define m4 where "m4 = m3 @ [chat_message ?tw c4]"
  define u1 where "u1 = snd (notify self ''product_manager'' ''analyzing'' None u)"
  define u2 where "u2 = snd (notify ?self' ''python_engineer'' ''coding'' None u1)"
  define u3 where "u3 = snd (notify ?self' ''code_reviewer'' ''reviewing'' None u2)"
  have h0: "has_content m0"
    by (simp add: m0_def has_content_def chat_message_def)
  have h1: "has_content m1" and h2: "has_content m2" and h4: "has_content m4"
    unfolding m1_def m2_def m4_def by (rule has_content_snoc)+
  have w': "wired (agents ?self')" and cb': "callback_returns ?self'"
    using w cb by simp_all
  have s1: "custom_speaker_selector self ?ad m0 u = (Inr (Some ?pm), self, u1)"
    using sel_admin_start[OF h0 cb, of ?ad ?pm u] ags
    by (simp add: m0_def chat_message_def u1_def)
  have s2: "custom_speaker_selector self ?pm m1 u1 = (Inr (Some ?pe), ?self', u2)"
    by (simp add: sel_linear(5)[OF h1 cb] ags u2_def)
  have s3: "custom_speaker_selector ?self' ?pe m2 u2 = (Inr (Some ?cr), ?self', u3)"
    by (simp add: sel_linear(1)[OF h2 cb'] ags u3_def)
  have s4: "custom_speaker_selector ?self' ?cr m3 u3 = (Inr (Some ?tw), ?self', u3)"
    using sel_ambiguous[of ?cr m3 c3 ?self' ?tw u3] amb ags
    by (simp add: m3_def chat_message_def)
  from run_tail[OF w' cb' r h4, of n u3] obtain ms u' where
    t: "run_chat (Suc (Suc (Suc (Suc n)))) reply ?self' ?tw m4 u3 = (None, ?self', m4 @ ms, u')"
    and sp: "speakers ms = [Some ''QA_Engineer'', Some ''DevOps_Engineer'', Some ''UX_Designer'']"
    by blast
  have eq: "8 + n = Suc (Suc (Suc (Suc (Suc (Suc (Suc (Suc n)))))))"
    by simp
  have "run_chat (8 + n) reply self ?ad m0 u =
        run_chat (Suc (Suc (Suc (Suc (Suc (Suc (Suc n))))))) reply self ?pm m1 u1"
    unfolding eq m1_def by (rule run_chat_step[where reply = reply, OF s1 c1])
  also have "\<dots> = run_chat (Suc (Suc (Suc (Suc (Suc (Suc n)))))) reply ?self' ?pe m2 u2"
    unfolding m2_def by (rule run_chat_step[where reply = reply, OF s2 c2])
  also have "\<dots> = run_chat (Suc (Suc (Suc (Suc (Suc n))))) reply ?self' ?cr m3 u3"
    unfolding m3_def by (rule run_chat_step[where reply = reply, OF s3 c3])
  also have "\<dots> = run_chat (Suc (Suc (Suc (Suc n)))) reply ?self' ?tw m4 u3"
    unfolding m4_def by (rule run_chat_step[where reply = reply, OF s4 c4])
  also note t
  finally have "run_chat (8 + n) reply self ?ad m0 u =
      (None, ?self', chat_message ?ad request #
         ([chat_message ?pm c1, chat_message ?pe c2, chat_message ?cr c3, chat_message ?tw c4]
          @ ms), u')"
    by (simp add: m0_def m1_def m2_def m3_def m4_def)
  moreover have "speakers
        ([chat_message ?pm c1, chat_message ?pe c2, chat_message ?cr c3, chat_message ?tw c4]
          @ ms) =
      [Some ''Product_Manager'', Some ''Python_Engineer'', Some ''Code_Reviewer'',
       Some ''Tech_Writer'', Some ''QA_Engineer'', Some ''DevOps_Engineer'',
       Some ''UX_Designer'']"
    using sp by (simp add: speakers_def chat_message_def)
  ultimately show ?thesis unfolding m0_def by blast
qed

lemma workflow_iterations:
  assumes "user_request \<noteq> []" "strip user_request \<noteq> []"
    and "converse self env user_request u = (None, self', msgs, u')"
  shows "review_iterations (fst (initiate_workflow self env user_request u fs)) =
           review_iteration_count self'"
  using assms
  by (auto simp: initiate_workflow_def finish_workflow_def error_result_def
        split: sum.splits prod.splits)

lemma workflow_success:
  assumes "user_request \<noteq> []" "strip user_request \<noteq> []"
    and "converse self env user_request u = (None, self', msgs, u')"
    and "workspace_free fs (workspace_path env)"
    and "tests_not_interrupted env"
  shows "status (fst (initiate_workflow self env user_request u fs)) = ''success''"
proof -
  from assms(4) obtain fs1 where mk: "makedirs fs (workspace_path env) = Inr fs1"
    by (rule makedirs_free)
  obtain n fs2 where ex: "extract_files (workspace_path env) msgs fs1 0 = (n, fs2)"
    by (cases "extract_files (workspace_path env) msgs fs1 0") auto
  from assms(5) have "run_tests_in_workspace env (workspace_path env) fs2 \<noteq> Inl KeyboardInterrupt"
    by (simp add: tests_not_interrupted_def)
  then have "\<exists>report. execute_tests env fs2 = Inr report"
    by (simp add: execute_tests_def split: sum.splits raised.splits)
  then obtain report where "execute_tests env fs2 = Inr report"
    by blast
  with mk ex assms(1-3) show ?thesis
    by (simp add: initiate_workflow_def finish_workflow_def)
qed

section \<open>The callback and the decision\<close>

text \<open>Collaborators for the examples.\<close>

definition scripted_reply :: "agent \<Rightarrow> message list \<Rightarrow> raised + string" where
  "scripted_reply a m =
     Inr (if name a = ''Code_Reviewer'' then ''FIX_REQUIRED: add tests'' else ''done'')"

definition plain_reply :: "agent \<Rightarrow> message list \<Rightarrow> raised + string" where
  "plain_reply a m = Inr ''looks fine''"

definition failing_tests :: "string \<Rightarrow> filesystem \<Rightarrow> raised + test_report" where
  "failing_tests path fs = Inl (Exception (OtherError ''RuntimeError'' ''pytest is missing''))"

definition rework_env :: environment where
  "rework_env =
     \<lparr>get_llm_config = None, generate_reply = scripted_reply,
      run_tests_in_workspace = failing_tests, workspace_path = ''/app/workspace''\<rparr>"

definition plain_env :: environment where
  "plain_env =
     \<lparr>get_llm_config = None, generate_reply = plain_reply,
      run_tests_in_workspace = failing_tests, workspace_path = ''/app/workspace''\<rparr>"

definition empty_fs :: filesystem where
  "empty_fs = \<lparr>dirs = {''/'', ''/app''}, files = Map.empty\<rparr>"

definition rework_call :: "agent \<times> message list" where
  "rework_call =
     (Agent ''Code_Reviewer'', [chat_message (Agent ''Code_Reviewer'') ''FIX_REQUIRED: add tests''])"





section \<open>The claims on the selector\<close>

text \<open>
  Claim C2. When the last speaker is \<^verbatim>\<open>Admin_Proxy\<close> and no message of the transcript
  carries the name \<^verbatim>\<open>UX_Designer\<close>, the selector returns the agent stored under
  \<^verbatim>\<open>product_manager\<close>; when the last speaker is \<^verbatim>\<open>Admin_Proxy\<close> and some message
  carries the name \<^verbatim>\<open>UX_Designer\<close>, it ends the conversation and changes nothing; when the
  last speaker is \<^verbatim>\<open>UX_Designer\<close>, it ends the conversation. The transcript is one whose
  last message has a content, and the callback, if any, returns.
\<close>

theorem start_and_terminal_states:
  assumes "has_content messages" and "callback_returns self"
  shows "(name last_speaker = ''Admin_Proxy'' \<and>
          \<not> list_ex (\<lambda>msg. msg ''name'' = Some ''UX_Designer'') messages \<and>
          agents self ''product_manager'' = Some pm
          \<longrightarrow> fst (custom_speaker_selector self last_speaker messages u) = Inr (Some pm))
       \<and> (name last_speaker = ''Admin_Proxy'' \<and>
          list_ex (\<lambda>msg. msg ''name'' = Some ''UX_Designer'') messages
          \<longrightarrow> custom_speaker_selector self last_speaker messages u = (Inr None, self, u))
       \<and> (name last_speaker = ''UX_Designer''
          \<longrightarrow> fst (custom_speaker_selector self last_speaker messages u) = Inr None)"
proof -
  have rl: "read_last messages = Inr (last_content messages)"
    using last_message_eq[OF assms(1)] by (simp add: read_last_def)
  show ?thesis
    using assms(2)
    by (auto simp: selector_unfold_admin[OF _ rl] sel_ux[OF assms] lookup_notify_def
          getitem_def notify_return_ok)
qed

text \<open>The three cases on a run for a calculator, with a callback that counts its calls.\<close>

theorem start_and_terminal_states_witness:
  "fst (custom_speaker_selector (new_orchestrator standard_agents 5 (Some counting_callback))
          (Agent ''Admin_Proxy'') [chat_message (Agent ''Admin_Proxy'') ''Build a calculator''] 0) =
     Inr (Some (Agent ''Product_Manager'')) \<and>
   custom_speaker_selector (new_orchestrator standard_agents 5 (Some counting_callback))
     (Agent ''Admin_Proxy'')
     [chat_message (Agent ''Admin_Proxy'') ''Build a calculator'',
      chat_message (Agent ''UX_Designer'') ''The interface''] 0 =
     (Inr None, new_orchestrator standard_agents 5 (Some counting_callback), 0) \<and>
   fst (custom_speaker_selector (new_orchestrator standard_agents 5 (Some counting_callback))
          (Agent ''UX_Designer'') [chat_message (Agent ''UX_Designer'') ''The interface''] 0) =
     Inr None"
proof -
  let ?self = "new_orchestrator standard_agents 5 (Some counting_callback)"
  have cb: "callback_returns ?self"
    by (simp add: callback_returns_def new_orchestrator_def counting_callback_def)
  have pm: "agents ?self ''product_manager'' = Some (Agent ''Product_Manager'')"
    by (simp add: new_orchestrator_def standard_agents_def)
  have h1: "has_content [chat_message (Agent ''Admin_Proxy'') ''Build a calculator'']"
    and h2: "has_content [chat_message (Agent ''Admin_Proxy'') ''Build a calculator'',
      chat_message (Agent ''UX_Designer'') ''The interface'']"
    and h3: "has_content [chat_message (Agent ''UX_Designer'') ''The interface'']"
    by (simp_all add: has_content_def chat_message_def)
  show ?thesis
    using start_and_terminal_states[OF h1 cb, of "Agent ''Admin_Proxy''" "Agent ''Product_Manager''" 0]
      start_and_terminal_states[OF h2 cb, of "Agent ''Admin_Proxy''" "Agent ''Product_Manager''" 0]
      start_and_terminal_states[OF h3 cb, of "Agent ''UX_Designer''" "Agent ''Product_Manager''" 0]
      pm
    by (simp add: chat_message_def)
qed

text \<open>
  Claim C10. When the last message, spoken by \<^verbatim>\<open>Code_Reviewer\<close>, contains both
  \<^verbatim>\<open>FIX_REQUIRED\<close> and \<^verbatim>\<open>APPROVED\<close>, the rework branch is taken: the counter grows by
  one and the selector returns the agent stored under \<^verbatim>\<open>python_engineer\<close>, or the one
  under \<^verbatim>\<open>tech_writer\<close> when the counter has reached the ceiling.
\<close>

theorem rework_takes_precedence:
  assumes "name last_speaker = ''Code_Reviewer''" and "messages \<noteq> []"
    and "last messages ''content'' = Some c"
    and "str_in ''FIX_REQUIRED'' c" and "str_in ''APPROVED'' c"
    and "callback_returns self"
    and "agents self ''python_engineer'' = Some pe" and "agents self ''tech_writer'' = Some tw"
  shows "fst (custom_speaker_selector self last_speaker messages u) =
           Inr (Some (if max_review_iterations self \<le> review_iteration_count self + 1
                      then tw else pe)) \<and>
         review_iteration_count (fst (snd (custom_speaker_selector self last_speaker messages u))) =
           review_iteration_count self + 1"
  using sel_rework[OF assms(1-4,6-8), of u] by simp

text \<open>A review that approves and asks for a fix in one message is sent back.\<close>

theorem rework_takes_precedence_witness:
  "fst (custom_speaker_selector (new_orchestrator standard_agents 5 (Some counting_callback))
          (Agent ''Code_Reviewer'')
          [chat_message (Agent ''Code_Reviewer'') ''APPROVED, but FIX_REQUIRED in main.py''] 0) =
     Inr (Some (Agent ''Python_Engineer'')) \<and>
   review_iteration_count (fst (snd (custom_speaker_selector
          (new_orchestrator standard_agents 5 (Some counting_callback))
          (Agent ''Code_Reviewer'')
          [chat_message (Agent ''Code_Reviewer'') ''APPROVED, but FIX_REQUIRED in main.py''] 0))) = 1"
proof -
  let ?self = "new_orchestrator standard_agents 5 (Some counting_callback)"
  let ?c = "''APPROVED, but FIX_REQUIRED in main.py''"
  let ?m = "[chat_message (Agent ''Code_Reviewer'') ?c]"
  have cb: "callback_returns ?self"
    by (simp add: callback_returns_def new_orchestrator_def counting_callback_def)
  have "name (Agent ''Code_Reviewer'') = ''Code_Reviewer''" "?m \<noteq> []"
    "last ?m ''content'' = Some ?c" "str_in ''FIX_REQUIRED'' ?c" "str_in ''APPROVED'' ?c"
    "agents ?self ''python_engineer'' = Some (Agent ''Python_Engineer'')"
    "agents ?self ''tech_writer'' = Some (Agent ''Tech_Writer'')"
    by (simp_all add: chat_message_def new_orchestrator_def standard_agents_def)
  from rework_takes_precedence[OF this(1-5) cb this(6,7), of 0] show ?thesis
    by (simp add: new_orchestrator_def)
qed

text \<open>
  Claim C9. Two calls of the selector with the same last speaker, the same messages and the
  same counter, on orchestrators with the same agents and the same ceiling, return the same
  next stage and leave the same counter, whatever callback each has and whatever state the
  user interface is in. The model of the selector has no other input: neither a clock nor
  a source of randomness.
\<close>

theorem selector_deterministic:
  assumes "agents s1 = agents s2"
    and "max_review_iterations s1 = max_review_iterations s2"
    and "review_iteration_count s1 = review_iteration_count s2"
    and "fst (custom_speaker_selector s1 last_speaker messages u1) = Inr r1"
    and "fst (custom_speaker_selector s2 last_speaker messages u2) = Inr r2"
  shows "r1 = r2 \<and>
         review_iteration_count (fst (snd (custom_speaker_selector s1 last_speaker messages u1))) =
         review_iteration_count (fst (snd (custom_speaker_selector s2 last_speaker messages u2)))"
  using selector_decision[OF assms(4)] selector_decision[OF assms(5)] assms(1-3)
  by simp

text \<open>The same call with a counting callback and with no callback.\<close>

theorem selector_deterministic_witness:
  "fst (custom_speaker_selector (new_orchestrator standard_agents 5 (Some counting_callback))
          (Agent ''Python_Engineer'') [chat_message (Agent ''Python_Engineer'') ''code''] 0) =
     Inr (Some (Agent ''Code_Reviewer'')) \<and>
   fst (custom_speaker_selector (new_orchestrator standard_agents 5 None)
          (Agent ''Python_Engineer'') [chat_message (Agent ''Python_Engineer'') ''code''] ()) =
     Inr (Some (Agent ''Code_Reviewer'')) \<and>
   review_iteration_count (fst (snd (custom_speaker_selector
        (new_orchestrator standard_agents 5 (Some counting_callback))
        (Agent ''Python_Engineer'') [chat_message (Agent ''Python_Engineer'') ''code''] 0))) =
   review_iteration_count (fst (snd (custom_speaker_selector
        (new_orchestrator standard_agents 5 None)
        (Agent ''Python_Engineer'') [chat_message (Agent ''Python_Engineer'') ''code''] ())))"
proof -
  let ?s1 = "new_orchestrator standard_agents 5 (Some counting_callback)"
  let ?s2 = "new_orchestrator standard_agents 5
      (None :: (string \<Rightarrow> string \<Rightarrow> int option \<Rightarrow> unit \<Rightarrow> raised option \<times> unit) option)"
  let ?m = "[chat_message (Agent ''Python_Engineer'') ''code'']"
  have cb1: "callback_returns ?s1" and cb2: "callback_returns ?s2"
    by (simp_all add: callback_returns_def new_orchestrator_def counting_callback_def)
  have h: "has_content ?m"
    by (simp add: has_content_def chat_message_def)
  have a1: "fst (custom_speaker_selector ?s1 (Agent ''Python_Engineer'') ?m 0) =
      Inr (Some (Agent ''Code_Reviewer''))"
    using sel_linear(1)[OF h cb1, of "Agent ''Python_Engineer''" "Agent ''Code_Reviewer''" 0]
    by (simp add: new_orchestrator_def standard_agents_def)
  have a2: "fst (custom_speaker_selector ?s2 (Agent ''Python_Engineer'') ?m ()) =
      Inr (Some (Agent ''Code_Reviewer''))"
    using sel_linear(1)[OF h cb2, of "Agent ''Python_Engineer''" "Agent ''Code_Reviewer''" "()"]
    by (simp add: new_orchestrator_def standard_agents_def)
  have "agents ?s1 = agents ?s2" "max_review_iterations ?s1 = max_review_iterations ?s2"
    "review_iteration_count ?s1 = review_iteration_count ?s2"
    by (simp_all add: new_orchestrator_def)
  from selector_deterministic[OF this a1 a2] a1 a2 show ?thesis
    by simp
qed




section \<open>The claims on the workflow\<close>

text \<open>
  Claim C7. For every request that is empty or consists of whitespace only,
  \<^verbatim>\<open>initiate_workflow\<close> returns the error result with the message
  \<^verbatim>\<open>User request cannot be empty\<close> and zero review iterations, whatever the collaborators
  are: no collaborator contributes to the result, the result carries no transcript and no
  test report, and the orchestrator, the user interface and the file system are left as they
  were.
\<close>

theorem blank_request_rejected:
  assumes "list_all isspace user_request"
  shows "initiate_workflow self env user_request u fs =
           (\<lparr>status = ''error'', error = Some ''User request cannot be empty'',
             review_iterations = 0, total_messages = None, files_extracted = None,
             result_messages = None, test_results = None\<rparr>, self, u, fs)"
  using strip_blank[OF assms]
  by (simp add: initiate_workflow_def error_result_def)

text \<open>A request made of a space, a tab and a line feed.\<close>

theorem blank_request_rejected_witness:
  "initiate_workflow (new_orchestrator standard_agents 5 (Some counting_callback)) rework_env
     [CHR '' '', CHR 0x09, CHR 0x0A] 0 empty_fs =
   (\<lparr>status = ''error'', error = Some ''User request cannot be empty'',
     review_iterations = 0, total_messages = None, files_extracted = None,
     result_messages = None, test_results = None\<rparr>,
    new_orchestrator standard_agents 5 (Some counting_callback), 0, empty_fs)"
proof -
  have "list_all isspace [CHR '' '', CHR 0x09, CHR 0x0A]"
    by (simp add: isspace_def)
  then show ?thesis
    by (rule blank_request_rejected)
qed

text \<open>
  Claim C1. With a ceiling \<open>N\<close> of at least one and the counter at zero, \<open>N\<close> successive
  calls of the selector on reviewer outputs that contain the rework token return the
  producer (\<^verbatim>\<open>python_engineer\<close>) exactly \<open>N - 1\<close> times and then the downstream stage
  (\<^verbatim>\<open>tech_writer\<close>) on the \<open>N\<close>th call, where the counter is \<open>N\<close>. A run of
  \<^verbatim>\<open>run_workflow\<close>, whose ceiling is five, in which no stage raises and every reply of the
  reviewer contains the rework token, ends by the selector's Terminal within the round
  limit, after the producer was sent back four times, and reports five review iterations.
\<close>

theorem review_loop_ceiling:
  "(callback_returns self \<and> agents self ''python_engineer'' = Some pe \<and>
    agents self ''tech_writer'' = Some tw \<and> review_iteration_count self = 0 \<and>
    1 \<le> max_review_iterations self \<and> length calls = nat (max_review_iterations self) \<and>
    list_all rework_signal calls
    \<longrightarrow> fst (selector_calls self calls u) =
          replicate (nat (max_review_iterations self) - 1) (Inr (Some pe)) @ [Inr (Some tw)] \<and>
        review_iteration_count (fst (snd (selector_calls self calls u))) =
          max_review_iterations self) \<and>
   (user_request \<noteq> [] \<and> strip user_request \<noteq> [] \<and> get_llm_config env = None \<and>
    wired agents_dict \<and> callback_returns (new_orchestrator agents_dict 5 callback) \<and>
    stages_reply (generate_reply env) \<and> always_rework (generate_reply env)
    \<longrightarrow> review_iterations (fst (run_workflow user_request agents_dict callback env v fs)) = 5 \<and>
        (\<exists>self' ms v'.
           converse (new_orchestrator agents_dict 5 callback) env user_request v =
             (None, self', chat_message (Agent ''Admin_Proxy'') user_request # ms, v') \<and>
           speakers ms =
             [Some ''Product_Manager'', Some ''Python_Engineer'',
              Some ''Code_Reviewer'', Some ''Python_Engineer'',
              Some ''Code_Reviewer'', Some ''Python_Engineer'',
              Some ''Code_Reviewer'', Some ''Python_Engineer'',
              Some ''Code_Reviewer'', Some ''Python_Engineer'',
              Some ''Code_Reviewer'', Some ''Tech_Writer'', Some ''QA_Engineer'',
              Some ''DevOps_Engineer'', Some ''UX_Designer'']))"
proof (intro conjI impI)
  assume a: "callback_returns self \<and> agents self ''python_engineer'' = Some pe \<and>
    agents self ''tech_writer'' = Some tw \<and> review_iteration_count self = 0 \<and>
    1 \<le> max_review_iterations self \<and> length calls = nat (max_review_iterations self) \<and>
    list_all rework_signal calls"
  define k where "k = nat (max_review_iterations self) - 1"
  from a have "1 \<le> max_review_iterations self" "review_iteration_count self = 0"
    "length calls = nat (max_review_iterations self)"
    by simp_all
  then have len: "length calls = Suc k"
    and mx: "max_review_iterations self = review_iteration_count self + 1 + int k"
    unfolding k_def by linarith+
  from a have "callback_returns self" "agents self ''python_engineer'' = Some pe"
    "agents self ''tech_writer'' = Some tw" "list_all rework_signal calls"
    by simp_all
  from selector_calls_rework[OF this(1-3) this(4) len mx, of u]
  show "fst (selector_calls self calls u) =
          replicate (nat (max_review_iterations self) - 1) (Inr (Some pe)) @ [Inr (Some tw)]"
    and "review_iteration_count (fst (snd (selector_calls self calls u))) =
          max_review_iterations self"
    by (simp_all add: k_def)
next
  let ?self = "new_orchestrator agents_dict 5 callback"
  assume b: "user_request \<noteq> [] \<and> strip user_request \<noteq> [] \<and> get_llm_config env = None \<and>
    wired agents_dict \<and> callback_returns ?self \<and>
    stages_reply (generate_reply env) \<and> always_rework (generate_reply env)"
  then have w: "wired (agents ?self)" and cb: "callback_returns ?self"
    and r: "stages_reply (generate_reply env)" and rw: "always_rework (generate_reply env)"
    and cfg: "get_llm_config env = None"
    by (simp_all add: new_orchestrator_def)
  have mx: "max_review_iterations ?self = 1 + int 4"
    by (simp add: new_orchestrator_def)
  from run_from_start[OF r rw w cb mx, of 33 user_request v] obtain ms v' where
    run: "run_chat (2 * 4 + 8 + 33) (generate_reply env) ?self (Agent ''Admin_Proxy'')
            [chat_message (Agent ''Admin_Proxy'') user_request] v =
          (None, ?self\<lparr>review_iteration_count := max_review_iterations ?self\<rparr>,
           chat_message (Agent ''Admin_Proxy'') user_request # ms, v')"
    and sp: "speakers ms =
        [Some ''Product_Manager'', Some ''Python_Engineer''] @
        concat (replicate 4 [Some ''Code_Reviewer'', Some ''Python_Engineer'']) @
        [Some ''Code_Reviewer'', Some ''Tech_Writer'', Some ''QA_Engineer'',
         Some ''DevOps_Engineer'', Some ''UX_Designer'']"
    by blast
  have cv: "converse ?self env user_request v =
      (None, ?self\<lparr>review_iteration_count := max_review_iterations ?self\<rparr>,
       chat_message (Agent ''Admin_Proxy'') user_request # ms, v')"
    using run by (simp add: converse_wired[OF cfg w])
  from b have ne: "user_request \<noteq> []" "strip user_request \<noteq> []"
    by simp_all
  show "review_iterations (fst (run_workflow user_request agents_dict callback env v fs)) = 5"
    using workflow_iterations[OF ne cv, of fs]
    by (simp add: run_workflow_def new_orchestrator_def)
  have "speakers ms =
      [Some ''Product_Manager'', Some ''Python_Engineer'',
       Some ''Code_Reviewer'', Some ''Python_Engineer'',
       Some ''Code_Reviewer'', Some ''Python_Engineer'',
       Some ''Code_Reviewer'', Some ''Python_Engineer'',
       Some ''Code_Reviewer'', Some ''Python_Engineer'',
       Some ''Code_Reviewer'', Some ''Tech_Writer'', Some ''QA_Engineer'',
       Some ''DevOps_Engineer'', Some ''UX_Designer'']"
    using sp by (simp add: eval_nat_numeral)
  with cv show "\<exists>self' ms v'.
       converse ?self env user_request v =
         (None, self', chat_message (Agent ''Admin_Proxy'') user_request # ms, v') \<and>
       speakers ms =
         [Some ''Product_Manager'', Some ''Python_Engineer'',
          Some ''Code_Reviewer'', Some ''Python_Engineer'',
          Some ''Code_Reviewer'', Some ''Python_Engineer'',
          Some ''Code_Reviewer'', Some ''Python_Engineer'',
          Some ''Code_Reviewer'', Some ''Python_Engineer'',
          Some ''Code_Reviewer'', Some ''Tech_Writer'', Some ''QA_Engineer'',
          Some ''DevOps_Engineer'', Some ''UX_Designer'']"
    by blast
qed

text \<open>Three rework signals under a ceiling of three, and a run under the ceiling of five.\<close>

theorem review_loop_ceiling_witness:
  "fst (selector_calls (new_orchestrator standard_agents 3 (Some counting_callback))
          [rework_call, rework_call, rework_call] 0) =
     [Inr (Some (Agent ''Python_Engineer'')), Inr (Some (Agent ''Python_Engineer'')),
      Inr (Some (Agent ''Tech_Writer''))] \<and>
   review_iteration_count (fst (snd (selector_calls
       (new_orchestrator standard_agents 3 (Some counting_callback))
       [rework_call, rework_call, rework_call] 0))) = 3 \<and>
   review_iterations (fst (run_workflow ''Build a calculator'' standard_agents
       (Some counting_callback) rework_env 0 empty_fs)) = 5"
proof -
  let ?self = "new_orchestrator standard_agents 3 (Some counting_callback)"
  have cb: "callback_returns (new_orchestrator standard_agents n (Some counting_callback))" for n
    by (simp add: callback_returns_def new_orchestrator_def counting_callback_def)
  have a: "agents ?self ''python_engineer'' = Some (Agent ''Python_Engineer'')"
    "agents ?self ''tech_writer'' = Some (Agent ''Tech_Writer'')"
    "review_iteration_count ?self = 0" "1 \<le> max_review_iterations ?self"
    "length [rework_call, rework_call, rework_call] = nat (max_review_iterations ?self)"
    "max_review_iterations ?self = 3"
    by (simp_all add: new_orchestrator_def standard_agents_def)
  have rs: "list_all rework_signal [rework_call, rework_call, rework_call]"
    by (simp add: rework_signal_def rework_call_def chat_message_def)
  have b: "''Build a calculator'' \<noteq> []" "strip ''Build a calculator'' \<noteq> []"
    "get_llm_config rework_env = None" "stages_reply (generate_reply rework_env)"
    "always_rework (generate_reply rework_env)"
    by (simp_all add: strip_def isspace_def rework_env_def stages_reply_def always_rework_def
          scripted_reply_def)
  show ?thesis
    using review_loop_ceiling[of ?self "Agent ''Python_Engineer''" "Agent ''Tech_Writer''"
        "[rework_call, rework_call, rework_call]" 0 "''Build a calculator''" rework_env
        standard_agents "Some counting_callback" 0 empty_fs]
      cb a rs b wired_standard
    by (simp add: eval_nat_numeral)
qed


lemma plain_env_facts:
  "get_llm_config plain_env = None" "stages_reply (generate_reply plain_env)"
  "never_rework (generate_reply plain_env)" "tests_not_interrupted plain_env"
  "workspace_free empty_fs (workspace_path plain_env)"
  by (simp_all add: plain_env_def stages_reply_def never_rework_def plain_reply_def
        tests_not_interrupted_def failing_tests_def workspace_free_def empty_fs_def list_ex_iff)

lemma request_facts: "''Build a calculator'' \<noteq> []" "strip ''Build a calculator'' \<noteq> []"
  by (simp_all add: strip_def isspace_def)

lemma counting_callback_returns:
  "callback_returns (new_orchestrator d n (Some counting_callback))"
  by (simp add: callback_returns_def new_orchestrator_def counting_callback_def)

text \<open>
  Claim C3. When the reviewer's output contains neither \<^verbatim>\<open>FIX_REQUIRED\<close> nor
  \<^verbatim>\<open>APPROVED\<close>, the selector returns the agent stored under \<^verbatim>\<open>tech_writer\<close> and leaves
  the orchestrator, hence the counter, unchanged. A run in which every reply of the reviewer
  is of this kind, no stage raises, the workspace can be created and the tests are not
  interrupted completes with status \<^verbatim>\<open>success\<close> and zero review iterations.
\<close>

theorem ambiguous_review_default_approve:
  "(name last_speaker = ''Code_Reviewer'' \<and> messages \<noteq> [] \<and>
    last messages ''content'' = Some c \<and>
    \<not> str_in ''FIX_REQUIRED'' c \<and> \<not> str_in ''APPROVED'' c \<and>
    agents self ''tech_writer'' = Some tw
    \<longrightarrow> custom_speaker_selector self last_speaker messages u = (Inr (Some tw), self, u)) \<and>
   (user_request \<noteq> [] \<and> strip user_request \<noteq> [] \<and> get_llm_config env = None \<and>
    wired (agents self) \<and> callback_returns self \<and>
    stages_reply (generate_reply env) \<and> never_rework (generate_reply env) \<and>
    workspace_free fs (workspace_path env) \<and> tests_not_interrupted env
    \<longrightarrow> status (fst (initiate_workflow self env user_request u fs)) = ''success'' \<and>
        review_iterations (fst (initiate_workflow self env user_request u fs)) = 0)"
proof (intro conjI impI)
  assume "name last_speaker = ''Code_Reviewer'' \<and> messages \<noteq> [] \<and>
    last messages ''content'' = Some c \<and>
    \<not> str_in ''FIX_REQUIRED'' c \<and> \<not> str_in ''APPROVED'' c \<and>
    agents self ''tech_writer'' = Some tw"
  then show "custom_speaker_selector self last_speaker messages u = (Inr (Some tw), self, u)"
    using sel_ambiguous[of last_speaker messages c self tw u] by blast
next
  assume b: "user_request \<noteq> [] \<and> strip user_request \<noteq> [] \<and> get_llm_config env = None \<and>
    wired (agents self) \<and> callback_returns self \<and>
    stages_reply (generate_reply env) \<and> never_rework (generate_reply env) \<and>
    workspace_free fs (workspace_path env) \<and> tests_not_interrupted env"
  then have ne: "user_request \<noteq> []" "strip user_request \<noteq> []"
    and cfg: "get_llm_config env = None" and w: "wired (agents self)"
    and cb: "callback_returns self" and r: "stages_reply (generate_reply env)"
    and nr: "never_rework (generate_reply env)"
    and free: "workspace_free fs (workspace_path env)" and ni: "tests_not_interrupted env"
    by simp_all
  from run_no_rework[OF r nr w cb, of 41 user_request u] obtain ms u' where
    "run_chat (8 + 41) (generate_reply env) self (Agent ''Admin_Proxy'')
        [chat_message (Agent ''Admin_Proxy'') user_request] u =
      (None, self\<lparr>review_iteration_count := 0\<rparr>,
       chat_message (Agent ''Admin_Proxy'') user_request # ms, u')"
    by blast
  then have cv: "converse self env user_request u =
      (None, self\<lparr>review_iteration_count := 0\<rparr>,
       chat_message (Agent ''Admin_Proxy'') user_request # ms, u')"
    by (simp add: converse_wired[OF cfg w])
  show "status (fst (initiate_workflow self env user_request u fs)) = ''success''"
    by (rule workflow_success[OF ne cv free ni])
  show "review_iterations (fst (initiate_workflow self env user_request u fs)) = 0"
    using workflow_iterations[OF ne cv, of fs] by simp
qed

text \<open>A reviewer that answers \<^verbatim>\<open>looks fine\<close>.\<close>

theorem ambiguous_review_default_approve_witness:
  "custom_speaker_selector (new_orchestrator standard_agents 5 (Some counting_callback))
     (Agent ''Code_Reviewer'') [chat_message (Agent ''Code_Reviewer'') ''looks fine''] 0 =
     (Inr (Some (Agent ''Tech_Writer'')),
      new_orchestrator standard_agents 5 (Some counting_callback), 0) \<and>
   status (fst (initiate_workflow (new_orchestrator standard_agents 5 (Some counting_callback))
      plain_env ''Build a calculator'' 0 empty_fs)) = ''success'' \<and>
   review_iterations (fst (initiate_workflow
      (new_orchestrator standard_agents 5 (Some counting_callback))
      plain_env ''Build a calculator'' 0 empty_fs)) = 0"
proof -
  let ?self = "new_orchestrator standard_agents 5 (Some counting_callback)"
  let ?m = "[chat_message (Agent ''Code_Reviewer'') ''looks fine'']"
  have a: "name (Agent ''Code_Reviewer'') = ''Code_Reviewer''" "?m \<noteq> []"
    "last ?m ''content'' = Some ''looks fine''"
    "\<not> str_in ''FIX_REQUIRED'' ''looks fine''" "\<not> str_in ''APPROVED'' ''looks fine''"
    "agents ?self ''tech_writer'' = Some (Agent ''Tech_Writer'')"
    by (simp_all add: chat_message_def new_orchestrator_def standard_agents_def)
  have w: "wired (agents ?self)"
    by (simp add: new_orchestrator_def wired_standard)
  show ?thesis
    using ambiguous_review_default_approve[of "Agent ''Code_Reviewer''" ?m "''looks fine''"
        ?self "Agent ''Tech_Writer''" 0 "''Build a calculator''" plain_env empty_fs]
      a w plain_env_facts request_facts counting_callback_returns[of standard_agents 5]
    by simp
qed

text \<open>
  Claim C6. When the conversation has ended without an exception, the workspace directory
  exists or can be created, and the test executor raises an exception \<open>e\<close> (an instance of
  \<^verbatim>\<open>Exception\<close>), the workflow returns status \<^verbatim>\<open>success\<close> with a test report of status
  \<^verbatim>\<open>error\<close>, all four counts zero and the message
  \<^verbatim>\<open>Failed to execute tests: \<close> followed by \<^verbatim>\<open>str(e)\<close>.
\<close>

theorem test_failure_recovered:
  assumes "user_request \<noteq> []" and "strip user_request \<noteq> []"
    and "converse self env user_request u = (None, self', msgs, u')"
    and "makedirs fs (workspace_path env) = Inr fs1"
    and "extract_files (workspace_path env) msgs fs1 0 = (n, fs2)"
    and "run_tests_in_workspace env (workspace_path env) fs2 = Inl (Exception e)"
  shows "initiate_workflow self env user_request u fs =
           (\<lparr>status = ''success'', error = None,
             review_iterations = review_iteration_count self',
             total_messages = Some (length msgs), files_extracted = Some n,
             result_messages = Some msgs,
             test_results =
               Some \<lparr>tests_status = ''error'',
                     tests_message = Some (''Failed to execute tests: '' @ str_of e),
                     total_tests = 0, total_passed = 0, total_failed = 0, total_errors = 0,
                     tests_results = []\<rparr>\<rparr>, self', u', fs2)"
  using assms
  by (simp add: initiate_workflow_def finish_workflow_def execute_tests_def)

text \<open>A run whose test executor fails because the test runner is missing.\<close>

theorem test_failure_recovered_witness:
  "status (fst (initiate_workflow (new_orchestrator standard_agents 5 (Some counting_callback))
      plain_env ''Build a calculator'' 0 empty_fs)) = ''success'' \<and>
   test_results (fst (initiate_workflow
      (new_orchestrator standard_agents 5 (Some counting_callback))
      plain_env ''Build a calculator'' 0 empty_fs)) =
     Some \<lparr>tests_status = ''error'',
           tests_message = Some ''Failed to execute tests: pytest is missing'',
           total_tests = 0, total_passed = 0, total_failed = 0, total_errors = 0,
           tests_results = []\<rparr>"
proof -
  let ?self = "new_orchestrator standard_agents 5 (Some counting_callback)"
  let ?req = "''Build a calculator''"
  have w: "wired (agents ?self)"
    by (simp add: new_orchestrator_def wired_standard)
  from run_no_rework[OF plain_env_facts(2,3) w counting_callback_returns, of 41 ?req 0]
  obtain ms u' where
    "run_chat (8 + 41) (generate_reply plain_env) ?self (Agent ''Admin_Proxy'')
        [chat_message (Agent ''Admin_Proxy'') ?req] 0 =
      (None, ?self\<lparr>review_iteration_count := 0\<rparr>,
       chat_message (Agent ''Admin_Proxy'') ?req # ms, u')"
    by blast
  then have cv: "converse ?self plain_env ?req 0 =
      (None, ?self\<lparr>review_iteration_count := 0\<rparr>,
       chat_message (Agent ''Admin_Proxy'') ?req # ms, u')"
    by (simp add: converse_wired[OF plain_env_facts(1) w])
  from plain_env_facts(5) obtain fs1 where
    mk: "makedirs empty_fs (workspace_path plain_env) = Inr fs1"
    by (rule makedirs_free)
  obtain n fs2 where ex: "extract_files (workspace_path plain_env)
      (chat_message (Agent ''Admin_Proxy'') ?req # ms) fs1 0 = (n, fs2)"
    by (cases "extract_files (workspace_path plain_env)
      (chat_message (Agent ''Admin_Proxy'') ?req # ms) fs1 0") auto
  have t: "run_tests_in_workspace plain_env (workspace_path plain_env) fs2 =
      Inl (Exception (OtherError ''RuntimeError'' ''pytest is missing''))"
    by (simp add: plain_env_def failing_tests_def)
  show ?thesis
    using test_failure_recovered[OF request_facts cv mk ex t]
    by simp
qed

section \<open>Lemmas on the file pattern\<close>

lemma str_in_sublist: "str_in needle s \<longleftrightarrow> sublist needle s"
  by (induction s) (simp_all add: sublist_Cons_right)

lemma find_end_split: "find_end s = Some (body, rest) \<Longrightarrow> s = body @ end_marker @ rest"
proof (induction s arbitrary: body)
  case Nil
  then show ?case by simp
next
  case (Cons c cs)
  show ?case
  proof (cases "prefix end_marker (c # cs)")
    case True
    with Cons.prems have "body = []" "rest = drop (length end_marker) (c # cs)"
      by simp_all
    moreover from True obtain zs where "c # cs = end_marker @ zs"
      by (auto simp: prefix_def)
    ultimately show ?thesis by simp
  next
    case False
    with Cons.prems obtain b where "find_end cs = Some (b, rest)" "body = c # b"
      by auto
    with Cons.IH show ?thesis by simp
  qed
qed

lemma match_space_split:
  "match_space s = Some (body, rest) \<Longrightarrow> \<exists>w. s = w @ body @ end_marker @ rest"
proof (induction s)
  case Nil
  then show ?case by simp
next
  case (Cons c cs)
  show ?case
  proof (cases "match_space cs")
    case (Some r)
    with Cons.prems have "match_space cs = Some (body, rest)"
      by (simp split: if_splits)
    with Cons.IH obtain w where "cs = w @ body @ end_marker @ rest"
      by blast
    then have "c # cs = (c # w) @ body @ end_marker @ rest"
      by simp
    then show ?thesis by blast
  next
    case None
    with Cons.prems have "find_end cs = Some (body, rest)"
      by (simp split: if_splits)
    then have "c # cs = [c] @ body @ end_marker @ rest"
      by (simp add: find_end_split)
    then show ?thesis by blast
  qed
qed

lemma match_name_split:
  "match_name acc s = Some (nm, body, rest) \<Longrightarrow> \<exists>w. s = w @ body @ end_marker @ rest"
proof (induction s arbitrary: acc)
  case Nil
  then show ?case by simp
next
  case (Cons c cs)
  show ?case
  proof (cases "match_name (acc @ [c]) cs")
    case (Some r)
    with Cons.prems have "match_name (acc @ [c]) cs = Some (nm, body, rest)"
      by (simp split: if_splits)
    with Cons.IH obtain w where "cs = w @ body @ end_marker @ rest"
      by blast
    then have "c # cs = (c # w) @ body @ end_marker @ rest"
      by simp
    then show ?thesis by blast
  next
    case None
    with Cons.prems have "match_space (drop 3 cs) = Some (body, rest)"
      by (auto split: if_splits option.splits)
    then obtain w where "drop 3 cs = w @ body @ end_marker @ rest"
      using match_space_split by blast
    then have "c # cs = (c # take 3 cs @ w) @ body @ end_marker @ rest"
      by (metis append_Cons append_assoc append_take_drop_id)
    then show ?thesis by blast
  qed
qed

lemma match_at_needs_end:
  assumes "match_at s = Some (nm, body, rest)"
  shows "str_in end_marker s"
proof -
  from assms have p: "prefix begin_marker s"
    and m: "match_name [] (drop (length begin_marker) s) = Some (nm, body, rest)"
    by (simp_all add: match_at_def split: if_splits)
  from m obtain w where "drop (length begin_marker) s = w @ body @ end_marker @ rest"
    using match_name_split by blast
  then have "s = (take (length begin_marker) s @ w @ body) @ end_marker @ rest"
    by (metis append_assoc append_take_drop_id)
  then show ?thesis
    unfolding str_in_sublist sublist_def by blast
qed

lemma findall_without_end: "\<not> str_in end_marker s \<Longrightarrow> findall s = []"
proof (induction s)
  case Nil
  then show ?case by simp
next
  case (Cons c cs)
  have "match_at (c # cs) = None"
  proof (rule ccontr)
    assume "match_at (c # cs) \<noteq> None"
    then obtain nm body rest where "match_at (c # cs) = Some (nm, body, rest)"
      by auto
    then have "str_in end_marker (c # cs)"
      by (rule match_at_needs_end)
    with Cons.prems show False
      by blast
  qed
  moreover from Cons.prems have "\<not> str_in end_marker cs"
    by simp
  ultimately show ?case
    using Cons.IH by simp
qed


lemma end_marker_border:
  assumes "prefix end_marker (x @ end_marker @ t)" and "x \<noteq> []"
  shows "prefix end_marker x"
proof (rule ccontr)
  assume np: "\<not> prefix end_marker x"
  with assms(1) obtain us where us: "end_marker = x @ us" "prefix us (end_marker @ t)"
    by (auto simp: prefix_append)
  from np us(1) have "us \<noteq> []"
    by auto
  with us(2) have "hd us = CHR 0x0A"
    by (cases us) (auto simp: end_marker_def)
  with \<open>us \<noteq> []\<close> have "CHR 0x0A \<in> set us"
    by (cases us) auto
  moreover from assms(2) us(1) have "set us \<subseteq> set ''===END_FILE===''"
    by (cases x) (auto simp: end_marker_def)
  ultimately show False
    by auto
qed

lemma find_end_first:
  "\<not> str_in end_marker mid \<Longrightarrow> find_end (mid @ end_marker @ t) = Some (mid, t)"
proof (induction mid)
  case Nil
  have "find_end (end_marker @ t) = Some ([], t)"
    by (simp add: end_marker_def)
  then show ?case by simp
next
  case (Cons c cs)
  from Cons.prems have np: "\<not> prefix end_marker (c # cs)" and ns: "\<not> str_in end_marker cs"
    by simp_all
  have "\<not> prefix end_marker ((c # cs) @ end_marker @ t)"
    using end_marker_border[of "c # cs" t] np by blast
  then show ?case
    using Cons.IH[OF ns] by simp
qed

lemma match_space_newline:
  assumes "x = [] \<or> \<not> isspace (hd x)"
  shows "match_space (CHR 0x0A # x) = find_end x"
proof -
  from assms have "match_space x = None"
    by (cases x) auto
  then show ?thesis
    by (simp add: isspace_def)
qed

lemma match_name_short:
  assumes "list_all (\<lambda>c. \<not> isspace c) t" and "length t \<le> 3"
    and "s = [] \<or> isspace (hd s)"
  shows "match_name acc (t @ s) = None"
  using assms
proof (induction t arbitrary: acc)
  case Nil
  then show ?case
    by (cases s) auto
next
  case (Cons c cs)
  from Cons.prems have ih: "match_name (acc @ [c]) (cs @ s) = None"
    by (intro Cons.IH) simp_all
  have "\<not> prefix ''==='' (cs @ s)"
  proof
    assume p: "prefix ''==='' (cs @ s)"
    from Cons.prems(2) have "length cs \<le> 2"
      by simp
    with p obtain d ds where s: "s = d # ds" and "d = CHR ''=''"
      by (cases cs; cases "tl cs"; cases s) (auto simp: prefix_def)
    with Cons.prems(3) show False
      by (simp add: isspace_def)
  qed
  with ih Cons.prems(1) show ?case
    by simp
qed

lemma match_name_exact:
  assumes "nm \<noteq> []" and "list_all (\<lambda>c. \<not> isspace c) nm"
    and "s = [] \<or> isspace (hd s)" and "match_space s = Some (body, rest)"
  shows "match_name acc (nm @ ''==='' @ s) = Some (acc @ nm, body, rest)"
  using assms(1,2)
proof (induction nm arbitrary: acc)
  case Nil
  then show ?case by simp
next
  case (Cons c cs)
  show ?case
  proof (cases "cs = []")
    case True
    have "match_name (acc @ [c]) (''==='' @ s) = None"
      by (rule match_name_short) (use assms(3) in \<open>simp_all add: isspace_def\<close>)
    with True Cons.prems(2) assms(4) show ?thesis
      by simp
  next
    case False
    with Cons have "match_name (acc @ [c]) (cs @ ''==='' @ s) = Some ((acc @ [c]) @ cs, body, rest)"
      by simp
    with Cons.prems(2) show ?thesis
      by simp
  qed
qed

lemma match_at_block:
  assumes "nm \<noteq> []" and "list_all (\<lambda>c. \<not> isspace c) nm"
    and "mid \<noteq> []" and "\<not> isspace (hd mid)" and "\<not> str_in end_marker mid"
  shows "match_at (begin_marker @ nm @ ''==='' @ [CHR 0x0A] @ mid @ end_marker @ t) =
           Some (nm, mid, t)"
proof -
  let ?s = "CHR 0x0A # mid @ end_marker @ t"
  have "match_space ?s = find_end (mid @ end_marker @ t)"
    using assms(3,4) by (intro match_space_newline) (cases mid, auto)
  then have ms: "match_space ?s = Some (mid, t)"
    using find_end_first[OF assms(5)] by simp
  have "match_name [] (nm @ ''==='' @ ?s) = Some ([] @ nm, mid, t)"
    by (rule match_name_exact[OF assms(1,2) _ ms]) (simp add: isspace_def)
  then show ?thesis
    by (simp add: match_at_def)
qed

lemma findall_block:
  assumes "nm \<noteq> []" and "list_all (\<lambda>c. \<not> isspace c) nm"
    and "mid \<noteq> []" and "\<not> isspace (hd mid)" and "\<not> str_in end_marker mid"
  shows "findall (begin_marker @ nm @ ''==='' @ [CHR 0x0A] @ mid @ end_marker @ t) =
           (nm, mid) # findall t"
proof -
  obtain c cs where "begin_marker @ nm @ ''==='' @ [CHR 0x0A] @ mid @ end_marker @ t = c # cs"
    by (simp add: begin_marker_def)
  then show ?thesis
    using match_at_block[OF assms, of t] by (metis findall.simps(2) option.simps(5) prod.simps(2))
qed

section \<open>Lemmas on the extraction\<close>

text \<open>A workspace directory that exists and is empty, and two replies of a stage.\<close>

definition workspace_fs :: filesystem where
  "workspace_fs = \<lparr>dirs = {''/'', ''/app'', ''/app/workspace''}, files = Map.empty\<rparr>"

definition swallowed_content :: string where
  "swallowed_content =
     ''===BEGIN_FILE:a.py===\<newline>x = 1\<newline>===BEGIN_FILE:b.py===\<newline>y = 2\<newline>===END_FILE===''"

definition nested_content :: string where
  "nested_content = ''===BEGIN_FILE:pkg/mod.py===\<newline>x = 1\<newline>===END_FILE===''"



lemma extract_files_append:
  "extract_files workspace (xs @ ys) fs n =
     (case extract_files workspace xs fs n of (n', fs') \<Rightarrow> extract_files workspace ys fs' n')"
proof (induction xs arbitrary: fs n)
  case Nil
  then show ?case by simp
next
  case (Cons x xs)
  obtain n1 fs1 where
    "save_matches workspace (findall (case x ''content'' of None \<Rightarrow> [] | Some c \<Rightarrow> c)) fs n =
       (n1, fs1)"
    by (cases "save_matches workspace (findall (case x ''content'' of None \<Rightarrow> [] | Some c \<Rightarrow> c)) fs n")
       auto
  then show ?case
    using Cons.IH[of fs1 n1] by (simp add: Let_def)
qed







section \<open>The claims on the extraction\<close>

text \<open>
  Claim C4, as stated, fails: for an entry with an unterminated block \<^verbatim>\<open>a.py\<close> followed
  by a well-formed block \<^verbatim>\<open>b.py\<close>, the pattern finds one match, named \<^verbatim>\<open>a.py\<close>, whose
  body runs to the end marker of the second block; one file is written, and no file
  \<^verbatim>\<open>b.py\<close>.
\<close>

theorem unterminated_block_swallows_next:
  "findall swallowed_content =
     [(''a.py'', ''x = 1\<newline>===BEGIN_FILE:b.py===\<newline>y = 2'')] \<and>
   fst (extract_files ''/app/workspace''
          [chat_message (Agent ''Python_Engineer'') swallowed_content] workspace_fs 0) = 1 \<and>
   files (snd (extract_files ''/app/workspace''
          [chat_message (Agent ''Python_Engineer'') swallowed_content] workspace_fs 0))
     ''/app/workspace/a.py'' = Some ''x = 1\<newline>===BEGIN_FILE:b.py===\<newline>y = 2'' \<and>
   files (snd (extract_files ''/app/workspace''
          [chat_message (Agent ''Python_Engineer'') swallowed_content] workspace_fs 0))
     ''/app/workspace/b.py'' = None"
  by code_simp

text \<open>
  Claim C4, amended. For a name without whitespace and a body that starts with a character
  that is not whitespace: an unterminated block followed by a well-formed block in the
  same entry gives a single match, named by the first begin marker, whose body holds the
  second block's begin line and body up to the first end marker; a well-formed block followed
  by text without an end marker is matched alone, with its own name and body; and an entry
  whose content has no end marker contributes nothing, so that the extraction of the other
  entries of the transcript is what it is without that entry.
\<close>

theorem unterminated_block_absorbs:
  "(nm \<noteq> [] \<and> list_all (\<lambda>c. \<not> isspace c) nm \<and> b1 \<noteq> [] \<and> \<not> isspace (hd b1) \<and>
    \<not> str_in end_marker (b1 @ [CHR 0x0A] @ begin_marker @ n2 @ ''==='' @ [CHR 0x0A] @ b2)
    \<longrightarrow> findall (begin_marker @ nm @ ''==='' @ [CHR 0x0A] @ b1 @ [CHR 0x0A] @
            begin_marker @ n2 @ ''==='' @ [CHR 0x0A] @ b2 @ end_marker) =
          [(nm, b1 @ [CHR 0x0A] @ begin_marker @ n2 @ ''==='' @ [CHR 0x0A] @ b2)]) \<and>
   (nm \<noteq> [] \<and> list_all (\<lambda>c. \<not> isspace c) nm \<and> b1 \<noteq> [] \<and> \<not> isspace (hd b1) \<and>
    \<not> str_in end_marker b1 \<and> \<not> str_in end_marker t
    \<longrightarrow> findall (begin_marker @ nm @ ''==='' @ [CHR 0x0A] @ b1 @ end_marker @ t) = [(nm, b1)]) \<and>
   (msg ''content'' = Some bad \<and> \<not> str_in end_marker bad
    \<longrightarrow> extract_files workspace (before @ [msg] @ after) fs n =
          extract_files workspace (before @ after) fs n)"
proof (intro conjI impI)
  let ?mid = "b1 @ [CHR 0x0A] @ begin_marker @ n2 @ ''==='' @ [CHR 0x0A] @ b2"
  assume a: "nm \<noteq> [] \<and> list_all (\<lambda>c. \<not> isspace c) nm \<and> b1 \<noteq> [] \<and> \<not> isspace (hd b1) \<and>
    \<not> str_in end_marker ?mid"
  then have "?mid \<noteq> []" "\<not> isspace (hd ?mid)"
    by simp_all
  with a have "findall (begin_marker @ nm @ ''==='' @ [CHR 0x0A] @ ?mid @ end_marker @ []) =
      (nm, ?mid) # findall []"
    by (intro findall_block) simp_all
  then show "findall (begin_marker @ nm @ ''==='' @ [CHR 0x0A] @ b1 @ [CHR 0x0A] @
            begin_marker @ n2 @ ''==='' @ [CHR 0x0A] @ b2 @ end_marker) = [(nm, ?mid)]"
    by simp
next
  assume "nm \<noteq> [] \<and> list_all (\<lambda>c. \<not> isspace c) nm \<and> b1 \<noteq> [] \<and> \<not> isspace (hd b1) \<and>
    \<not> str_in end_marker b1 \<and> \<not> str_in end_marker t"
  then show "findall (begin_marker @ nm @ ''==='' @ [CHR 0x0A] @ b1 @ end_marker @ t) = [(nm, b1)]"
    using findall_block[of nm b1 t] findall_without_end[of t] by simp
next
  assume "msg ''content'' = Some bad \<and> \<not> str_in end_marker bad"
  then have "extract_files workspace [msg] fs' n' = (n', fs')" for fs' n'
    using findall_without_end[of bad] by simp
  then show "extract_files workspace (before @ [msg] @ after) fs n =
      extract_files workspace (before @ after) fs n"
    by (simp add: extract_files_append split: prod.splits)
qed

text \<open>The three cases on the entries of the examples.\<close>

theorem unterminated_block_absorbs_witness:
  "findall swallowed_content =
     [(''a.py'', ''x = 1\<newline>===BEGIN_FILE:b.py===\<newline>y = 2'')] \<and>
   findall (''===BEGIN_FILE:a.py===\<newline>x = 1\<newline>===END_FILE===''
      @ ''\<newline>===BEGIN_FILE:b.py===\<newline>y = 2'') = [(''a.py'', ''x = 1'')] \<and>
   extract_files ''/app/workspace''
     ([chat_message (Agent ''Python_Engineer'') nested_content] @
      [chat_message (Agent ''QA_Engineer'') ''===BEGIN_FILE:t.py===\<newline>assert True''] @ [])
     workspace_fs 0 =
   extract_files ''/app/workspace''
     ([chat_message (Agent ''Python_Engineer'') nested_content] @ []) workspace_fs 0"
proof -
  have a: "''a.py'' \<noteq> []" "list_all (\<lambda>c. \<not> isspace c) ''a.py''" "''x = 1'' \<noteq> []"
    "\<not> isspace (hd ''x = 1'')"
    "\<not> str_in end_marker (''x = 1'' @ [CHR 0x0A] @ begin_marker @ ''b.py'' @ ''==='' @ [CHR 0x0A] @ ''y = 2'')"
    "\<not> str_in end_marker ''x = 1''"
    "\<not> str_in end_marker ''\<newline>===BEGIN_FILE:b.py===\<newline>y = 2''"
    "chat_message (Agent ''QA_Engineer'') ''===BEGIN_FILE:t.py===\<newline>assert True'' ''content'' =
       Some ''===BEGIN_FILE:t.py===\<newline>assert True''"
    "\<not> str_in end_marker ''===BEGIN_FILE:t.py===\<newline>assert True''"
    by (simp_all add: isspace_def end_marker_def begin_marker_def chat_message_def)
  show ?thesis
    using unterminated_block_absorbs[of "''a.py''" "''x = 1''" "''b.py''" "''y = 2''"
        "''\<newline>===BEGIN_FILE:b.py===\<newline>y = 2''"
        "chat_message (Agent ''QA_Engineer'') ''===BEGIN_FILE:t.py===\<newline>assert True''"
        "''===BEGIN_FILE:t.py===\<newline>assert True''" "''/app/workspace''"
        "[chat_message (Agent ''Python_Engineer'') nested_content]" "[]" workspace_fs 0]
      a
    by (simp add: swallowed_content_def begin_marker_def end_marker_def)
qed




end
